theory Spec2Isabelle
  imports Main "HOL-Library.AList" "HOL-Library.Sublist"
begin

section \<open>The device session of midea\_auto\_cloud (core/device.py)\<close>

text \<open>
  The theory embeds class \<open>MiedaDevice\<close> of \<open>core/device.py\<close>: the status merge
  \<open>_parse_cloud_message\<close>, the subscriber fan-out \<open>_update_all\<close>, the outbound path
  \<open>_build_send\<close> / \<open>_send_message\<close>, and the public operations \<open>refresh_status\<close>,
  \<open>set_attribute\<close> and \<open>set_attributes\<close>.

  Conventions of the embedding.
  \<^item> A Python \<open>dict\<close> is an association list in insertion order; \<open>d[k] = v\<close> is
    \<open>AList.update k v d\<close> (replace in place, else append), \<open>d.get(k)\<close> is \<open>map_of d k\<close>.
  \<^item> Attribute values are the scalars \<open>None\<close>, \<open>bool\<close>, \<open>int\<close> and \<open>str\<close>; Python's
    \<open>==\<close> on them is \<open>py_eq\<close> (a \<open>bool\<close> compares as the integer 0 or 1). Floats are
    left out.
  \<^item> The object state is the record \<open>MiedaDevice\<close>. Every call the session makes to a
    collaborator (cloud relay, codec, subscriber) is appended to the field \<open>trace\<close>, which
    the Python object does not have: it is the observable behaviour of the session.
  \<^item> A method returns a pair: \<open>Inl e\<close> when the exception \<open>e\<close> leaves the method,
    \<open>Inr ()\<close> when it returns, and the object state at that moment.
  \<^item> The cloud relay (\<open>core/cloud.py\<close>), the codec (\<open>core/lua_runtime.py\<close>) and Python's
    \<open>exec\<close> are not part of \<open>device.py\<close>; they are parameters. A collaborator call is a
    function of its arguments that yields a value or raises.
\<close>

subsection \<open>Values, dictionaries, exceptions\<close>

datatype val = VNone | VBool bool | VInt int | VStr string

type_synonym 'v dict = "(string \<times> 'v) list"

text \<open>Python's \<open>==\<close> on scalar values: \<open>True == 1\<close> and \<open>False == 0\<close> hold.\<close>

fun py_eq :: "val \<Rightarrow> val \<Rightarrow> bool" where
  "py_eq VNone VNone = True"
| "py_eq (VBool a) (VBool b) = (a = b)"
| "py_eq (VInt i) (VInt j) = (i = j)"
| "py_eq (VStr s) (VStr t) = (s = t)"
| "py_eq (VBool a) (VInt j) = ((if a then 1 else 0) = j)"
| "py_eq (VInt i) (VBool b) = (i = (if b then 1 else 0))"
| "py_eq _ _ = False"

text \<open>\<open>k in d\<close> and \<open>d.get(k, default)\<close>.\<close>

definition has_key :: "'v dict \<Rightarrow> string \<Rightarrow> bool" where
  "has_key d k = (map_of d k \<noteq> None)"

definition dict_get :: "'v dict \<Rightarrow> string \<Rightarrow> 'v \<Rightarrow> 'v" where
  "dict_get d k dflt = (case map_of d k of None \<Rightarrow> dflt | Some v \<Rightarrow> v)"

text \<open>
  The exceptions of the model: the builtin ones that the session's own code and the
  generated assignments can raise, and \<open>Raised msg\<close> for whatever a collaborator raises.
\<close>

datatype exn = TypeError | ValueError | AttributeError | KeyError | Raised string

datatype ParseMessageResult = SUCCESS | PADDING | ERROR

text \<open>The nested form of an outbound control payload, and a query template.\<close>

datatype nested = Leaf val | Node "(string \<times> nested) list"

datatype query = QDict "val dict" | QOther val

subsection \<open>Collaborators\<close>

datatype cloud_class = MSmartHomeCloud | MeijuCloud | OtherCloud

text \<open>
  \<open>self._cloud\<close>: its class (for \<open>isinstance\<close>), whether it has the two methods tested
  with \<open>hasattr\<close>, and its three calls. The identity arguments of a call (appliance code,
  device type, sn, model number, manufacturer code) are constants of the session and are
  not repeated. A status or a reply that is \<open>None\<close> is \<open>None\<close>.
\<close>

record MideaCloud =
  cloud_class :: cloud_class
  has_get_device_status :: bool
  has_send_device_control :: bool
  get_device_status :: "query \<Rightarrow> exn + val dict option"
  send_device_control :: "nested dict \<Rightarrow> val dict \<Rightarrow> exn + unit"
  send_cloud :: "nat list \<Rightarrow> exn + string option"

text \<open>
  \<open>self._lua_runtime\<close>. In \<open>_send_message\<close> the reply is first converted by
  \<open>dec_string_to_bytes(reply).hex()\<close> (\<open>core/util.py\<close>); that conversion is part of
  \<open>decode_status\<close> here, which takes the reply as it arrived.
\<close>

record MideaCodec =
  build_query :: "query \<Rightarrow> exn + string option"
  build_control :: "nested dict \<Rightarrow> val dict \<Rightarrow> exn + string option"
  decode_status :: "string \<Rightarrow> exn + val dict option"

text \<open>
  Python's \<open>exec\<close> on a generated assignment, seen from \<open>_parse_cloud_message\<close>: it gets
  the statement and the two dictionaries the statement can name (\<open>self._attributes\<close> and
  the local \<open>new_status\<close>) and yields the exception it raised, if any, and the two
  dictionaries as it left them.
\<close>

type_synonym py_exec = "string \<Rightarrow> val dict \<times> val dict \<Rightarrow> exn option \<times> (val dict \<times> val dict)"

datatype event =
    GetDeviceStatus query
  | BuildQuery query
  | BuildControl "nested dict" "val dict"
  | SendCloud "nat list"
  | DecodeStatus string
  | SendDeviceControl "nested dict" "val dict"
  | Notify nat "val dict"
  | DebugErrorReceived

text \<open>An entry of \<open>self._calculate_get\<close>: \<open>c.get("lvalue")\<close> and \<open>c.get("rvalue")\<close>.\<close>

record CalculateRule =
  lvalue :: "string option"
  rvalue :: "string option"

text \<open>
  The fields of the object that the modelled methods read or write. A subscriber
  registered with \<open>register_update\<close> is known by a number; calling it with a status is the
  event \<open>Notify\<close>.
\<close>

record MiedaDevice =
  device_type :: int
  attributes :: "val dict"
  queries :: "query list"
  centralized :: "string list"
  calculate_get :: "CalculateRule list"
  default_values :: "val dict"
  updates :: "nat list"
  lua_runtime :: "MideaCodec option"
  cloud :: "MideaCloud option"
  trace :: "event list"

definition emit :: "event \<Rightarrow> MiedaDevice \<Rightarrow> MiedaDevice" where
  "emit e d = d\<lparr>trace := trace d @ [e]\<rparr>"

definition set_attr :: "string \<Rightarrow> val \<Rightarrow> MiedaDevice \<Rightarrow> MiedaDevice" where
  "set_attr k v d = d\<lparr>attributes := AList.update k v (attributes d)\<rparr>"

subsection \<open>Strings: replace, find, split, fromhex\<close>

text \<open>\<open>s.replace(old, new)\<close> for a one-character \<open>old\<close>, the only use in the source.\<close>

definition replace_str :: "string \<Rightarrow> char \<Rightarrow> string \<Rightarrow> string" where
  "replace_str s old new = concat (map (\<lambda>c. if c = old then new else [c]) s)"

text \<open>\<open>s.find(sub)\<close>: the least index where \<open>sub\<close> occurs in \<open>s\<close>, or \<open>-1\<close>.\<close>

fun find_from :: "string \<Rightarrow> string \<Rightarrow> int \<Rightarrow> int" where
  "find_from [] sub i = (if sub = [] then i else - 1)"
| "find_from (c # cs) sub i =
     (if take (length sub) (c # cs) = sub then i else find_from cs sub (i + 1))"

definition find_str :: "string \<Rightarrow> string \<Rightarrow> int" where
  "find_str s sub = find_from s sub 0"

text \<open>\<open>s.split(sep)\<close> for a one-character separator.\<close>

fun split_str :: "string \<Rightarrow> char \<Rightarrow> string list" where
  "split_str [] sep = [[]]"
| "split_str (c # cs) sep =
     (if c = sep then [] # split_str cs sep
      else (case split_str cs sep of [] \<Rightarrow> [[c]] | w # ws \<Rightarrow> (c # w) # ws))"

text \<open>
  \<open>bytes.fromhex(cmd)\<close>: ASCII whitespace is skipped before a byte, a byte is two
  hexadecimal digits, anything else raises \<open>ValueError\<close>.
\<close>

definition hex_digit :: "char \<Rightarrow> nat option" where
  "hex_digit c =
     (let n = (of_char c :: nat) in
      if 48 \<le> n \<and> n \<le> 57 then Some (n - 48)
      else if 97 \<le> n \<and> n \<le> 102 then Some (n - 87)
      else if 65 \<le> n \<and> n \<le> 70 then Some (n - 55)
      else None)"

definition is_space :: "char \<Rightarrow> bool" where
  "is_space c = ((of_char c :: nat) \<in> {9, 10, 11, 12, 13, 32})"

fun fromhex :: "string \<Rightarrow> exn + nat list" where
  "fromhex [] = Inr []"
| "fromhex [c] = (if is_space c then Inr [] else Inl ValueError)"
| "fromhex (c # c' # cs) =
     (if is_space c then fromhex (c' # cs)
      else (case (hex_digit c, hex_digit c') of
              (Some hi, Some lo) \<Rightarrow>
                (case fromhex cs of Inl e \<Rightarrow> Inl e | Inr bs \<Rightarrow> Inr ((16 * hi + lo) # bs))
            | _ \<Rightarrow> Inl ValueError))"

subsection \<open>\<open>_convert_to_nested_structure\<close> (lines 153--173)\<close>

text \<open>
  The inner loop walks \<open>keys[:-1]\<close>, creating an empty dictionary where a key is missing,
  and assigns \<open>keys[-1]\<close> in the dictionary it reached. Where the walk reaches a value
  that is not a dictionary, the membership test or the item assignment on it raises
  \<open>TypeError\<close>.
\<close>

fun nested_assign :: "string list \<Rightarrow> val \<Rightarrow> nested dict \<Rightarrow> exn + nested dict" where
  "nested_assign [] v d = Inr d"
| "nested_assign [k] v d = Inr (AList.update k (Leaf v) d)"
| "nested_assign (k # ks) v d =
     (case map_of d k of
        None \<Rightarrow>
          (case nested_assign ks v [] of
             Inl e \<Rightarrow> Inl e
           | Inr sub \<Rightarrow> Inr (AList.update k (Node sub) d))
      | Some (Node cur) \<Rightarrow>
          (case nested_assign ks v cur of
             Inl e \<Rightarrow> Inl e
           | Inr sub \<Rightarrow> Inr (AList.update k (Node sub) d))
      | Some (Leaf x) \<Rightarrow> Inl TypeError)"

fun convert_loop :: "val dict \<Rightarrow> nested dict \<Rightarrow> exn + nested dict" where
  "convert_loop [] nested = Inr nested"
| "convert_loop ((key, value) # rest) nested =
     (if CHR ''.'' \<in> set key then
        (case nested_assign (split_str key CHR ''.'') value nested of
           Inl e \<Rightarrow> Inl e
         | Inr nested' \<Rightarrow> convert_loop rest nested')
      else convert_loop rest (AList.update key (Leaf value) nested))"

definition convert_to_nested_structure :: "val dict \<Rightarrow> exn + nested dict" where
  "convert_to_nested_structure attrs = convert_loop attrs []"

subsection \<open>\<open>_update_all\<close> (lines 617--620)\<close>

fun update_loop :: "nat list \<Rightarrow> val dict \<Rightarrow> MiedaDevice \<Rightarrow> MiedaDevice" where
  "update_loop [] status d = d"
| "update_loop (u # us) status d = update_loop us status (emit (Notify u status) d)"

definition update_all :: "MiedaDevice \<Rightarrow> val dict \<Rightarrow> MiedaDevice" where
  "update_all d status = update_loop (updates d) status d"

subsection \<open>\<open>_parse_cloud_message\<close> (lines 477--529)\<close>

text \<open>Line 483: \<open>attr not in self._attributes or self._attributes[attr] is None\<close>.\<close>

definition unset :: "val dict \<Rightarrow> string \<Rightarrow> bool" where
  "unset attrs attr = (case map_of attrs attr of None \<Rightarrow> True | Some v \<Rightarrow> v = VNone)"

text \<open>Line 489: \<open>single not in self._attributes or self._attributes[single] != value\<close>.\<close>

definition differs :: "val dict \<Rightarrow> string \<Rightarrow> val \<Rightarrow> bool" where
  "differs attrs single v = (case map_of attrs single of None \<Rightarrow> True | Some w \<Rightarrow> \<not> py_eq w v)"

text \<open>Lines 481--484, the loop over \<open>self._default_values.items()\<close>.\<close>

fun stage_defaults :: "val dict \<Rightarrow> val dict \<Rightarrow> val dict \<Rightarrow> val dict" where
  "stage_defaults attrs [] new_status = new_status"
| "stage_defaults attrs ((attr, default_value) # rest) new_status =
     stage_defaults attrs rest
       (if unset attrs attr then AList.update attr default_value new_status else new_status)"

text \<open>Lines 487--491, the loop over \<open>status.keys()\<close> with \<open>value = status.get(single)\<close>.\<close>

fun stage_status :: "val dict \<Rightarrow> val dict \<Rightarrow> string list \<Rightarrow> val dict \<Rightarrow> val dict" where
  "stage_status attrs status [] new_status = new_status"
| "stage_status attrs status (single # rest) new_status =
     (let v = dict_get status single VNone in
      stage_status attrs status rest
        (if differs attrs single v then AList.update single v new_status else new_status))"

text \<open>\<open>new_status\<close> as it stands at line 492, before the derived rules.\<close>

definition staged :: "MiedaDevice \<Rightarrow> val dict \<Rightarrow> val dict" where
  "staged d status =
     stage_status (attributes d) status (map fst status)
       (stage_defaults (attributes d) (default_values d) [])"

text \<open>The double quote character of the generated statements.\<close>

definition dq :: string where
  "dq = [CHR 0x22]"

text \<open>Lines 503--510: the two statements built from a rule.\<close>

definition calculate_str1 :: "string \<Rightarrow> string \<Rightarrow> string" where
  "calculate_str1 l r =
     replace_str
       (replace_str (replace_str l CHR ''['' ''self._attributes['') CHR '']'' (dq @ '']'')
        @ '' = '' @
        replace_str (replace_str r CHR ''['' ''self._attributes['') CHR '']'' (dq @ '']''))
       CHR ''['' (''['' @ dq)"

definition calculate_str2 :: "string \<Rightarrow> string \<Rightarrow> string" where
  "calculate_str2 l r =
     replace_str
       (replace_str (replace_str l CHR ''['' ''new_status['') CHR '']'' (dq @ '']'')
        @ '' = '' @
        replace_str (replace_str r CHR ''['' ''new_status['') CHR '']'' (dq @ '']''))
       CHR ''['' (''['' @ dq)"

text \<open>Lines 497--501: some key \<open>s\<close> of \<open>new_status\<close> has \<open>rvalue.find("[s]") >= 0\<close>.\<close>

definition references :: "string \<Rightarrow> val dict \<Rightarrow> bool" where
  "references r new_status =
     list_ex (\<lambda>(s, v). 0 \<le> find_str r (''['' @ s @ '']'')) new_status"

text \<open>
  Lines 494--526 for one rule. Both \<open>exec\<close> calls sit in a \<open>try\<close> whose handler only
  logs, so an exception changes nothing but what \<open>exec\<close> had done before raising.
\<close>

definition calculate_rule ::
  "py_exec \<Rightarrow> CalculateRule \<Rightarrow> val dict \<times> val dict \<Rightarrow> val dict \<times> val dict" where
  "calculate_rule ex c st =
     (case (lvalue c, rvalue c) of
        (Some l, Some r) \<Rightarrow>
          if l \<noteq> [] \<and> r \<noteq> [] then
            (if references r (snd st) then
               (case ex (calculate_str1 l r) st of
                  (_, st1) \<Rightarrow> (case ex (calculate_str2 l r) st1 of (_, st2) \<Rightarrow> st2))
             else st)
          else st
      | _ \<Rightarrow> st)"

fun calculate ::
  "py_exec \<Rightarrow> CalculateRule list \<Rightarrow> val dict \<times> val dict \<Rightarrow> val dict \<times> val dict" where
  "calculate ex [] st = st"
| "calculate ex (c # cs) st = calculate ex cs (calculate_rule ex c st)"

definition parse_cloud_message ::
  "py_exec \<Rightarrow> MiedaDevice \<Rightarrow> val dict \<Rightarrow> bool \<Rightarrow> ParseMessageResult \<times> MiedaDevice" where
  "parse_cloud_message ex d status update =
     (let new_status = staged d status in
      if length new_status > 0 then
        (case calculate ex (calculate_get d) (attributes d, new_status) of
           (attrs', new_status') \<Rightarrow>
             (let d' = d\<lparr>attributes := attrs'\<rparr> in
              (SUCCESS, if update then update_all d' new_status' else d')))
      else (SUCCESS, d))"

subsection \<open>\<open>_send_message\<close> (lines 589--597) and \<open>_build_send\<close> (lines 420--423)\<close>

text \<open>
  \<open>self._cloud.send_cloud\<close> on a session without a relay, and \<open>self._lua_runtime.decode_status\<close>
  on a session without a codec, raise \<open>AttributeError\<close>. The branch of line 594 is the
  event \<open>DebugErrorReceived\<close>.
\<close>

definition send_message :: "py_exec \<Rightarrow> MiedaDevice \<Rightarrow> nat list \<Rightarrow> (exn + unit) \<times> MiedaDevice" where
  "send_message ex d data =
     (case cloud d of
        None \<Rightarrow> (Inl AttributeError, d)
      | Some c \<Rightarrow>
          (let d1 = emit (SendCloud data) d in
           case send_cloud c data of
             Inl e \<Rightarrow> (Inl e, d1)
           | Inr None \<Rightarrow> (Inr (), d1)
           | Inr (Some reply) \<Rightarrow>
               if reply = [] then (Inr (), d1)
               else
                 (case lua_runtime d1 of
                    None \<Rightarrow> (Inl AttributeError, d1)
                  | Some rt \<Rightarrow>
                      (let d2 = emit (DecodeStatus reply) d1 in
                       case decode_status rt reply of
                         Inl e \<Rightarrow> (Inl e, d2)
                       | Inr None \<Rightarrow> (Inr (), d2)
                       | Inr (Some reply_dec) \<Rightarrow>
                           if reply_dec = [] then (Inr (), d2)
                           else
                             (case parse_cloud_message ex d2 reply_dec False of
                                (result, d3) \<Rightarrow>
                                  if result = ERROR then (Inr (), emit DebugErrorReceived d3)
                                  else (Inr (), d3))))))"

definition build_send :: "py_exec \<Rightarrow> MiedaDevice \<Rightarrow> string \<Rightarrow> (exn + unit) \<times> MiedaDevice" where
  "build_send ex d cmd =
     (case fromhex cmd of
        Inl e \<Rightarrow> (Inl e, d)
      | Inr bytes_cmd \<Rightarrow> send_message ex d bytes_cmd)"

subsection \<open>\<open>refresh_status\<close> (lines 425--474)\<close>

text \<open>Lines 428--446: the query of one iteration, and the store as the derivation leaves it.\<close>

definition derive_query :: "MiedaDevice \<Rightarrow> query \<Rightarrow> query \<times> MiedaDevice" where
  "derive_query d query =
     (case query of
        QOther x \<Rightarrow> (QOther x, d)
      | QDict q \<Rightarrow>
          if device_type d = 0xD9 then
            (let db_position = dict_get (attributes d) ''db_position'' (VInt 1) in
             if py_eq db_position (VInt 1) then
               (let current_location = dict_get (attributes d) ''db_location'' (VInt 1) in
                (QDict (AList.update ''db_location'' current_location q), d))
             else if py_eq db_position (VInt 0) then
               (let current_location = dict_get (attributes d) ''db_location'' (VInt 1);
                    calculated_location = (if py_eq current_location (VInt 1) then 2 else 1 :: int);
                    actual_query = QDict (AList.update ''db_location'' (VInt calculated_location) q)
                in if calculated_location = 1 then
                     (actual_query, set_attr ''db_location_selection'' (VStr ''left'') d)
                   else if calculated_location = 2 then
                     (actual_query, set_attr ''db_location_selection'' (VStr ''right'') d)
                   else (actual_query, d))
             else (QDict q, d))
          else (QDict q, d))"

text \<open>Lines 461--463 and 472--474: the local query when the relay gave no status.\<close>

definition query_local :: "py_exec \<Rightarrow> MiedaDevice \<Rightarrow> query \<Rightarrow> (exn + unit) \<times> MiedaDevice" where
  "query_local ex d actual_query =
     (case lua_runtime d of
        None \<Rightarrow> (Inr (), d)
      | Some rt \<Rightarrow>
          (let d1 = emit (BuildQuery actual_query) d in
           case build_query rt actual_query of
             Inl e \<Rightarrow> (Inl e, d1)
           | Inr None \<Rightarrow> (Inr (), d1)
           | Inr (Some query_cmd) \<Rightarrow>
               if query_cmd = [] then (Inr (), d1) else build_send ex d1 query_cmd))"

text \<open>
  Lines 448--474, the rest of one iteration. The branches for the two relay classes
  differ only in the identity arguments they pass.
\<close>

definition refresh_query :: "py_exec \<Rightarrow> MiedaDevice \<Rightarrow> query \<Rightarrow> (exn + unit) \<times> MiedaDevice" where
  "refresh_query ex d query =
     (case derive_query d query of
        (actual_query, d0) \<Rightarrow>
          (case cloud d0 of
             None \<Rightarrow> (Inr (), d0)
           | Some c \<Rightarrow>
               if has_get_device_status c \<and>
                  (cloud_class c = MSmartHomeCloud \<or> cloud_class c = MeijuCloud) then
                 (let d1 = emit (GetDeviceStatus actual_query) d0 in
                  case get_device_status c actual_query of
                    Inl e \<Rightarrow> (Inl e, d1)
                  | Inr None \<Rightarrow> query_local ex d1 actual_query
                  | Inr (Some status) \<Rightarrow>
                      if status = [] then query_local ex d1 actual_query
                      else (Inr (), snd (parse_cloud_message ex d1 status True)))
               else (Inr (), d0)))"

fun refresh_loop :: "py_exec \<Rightarrow> MiedaDevice \<Rightarrow> query list \<Rightarrow> (exn + unit) \<times> MiedaDevice" where
  "refresh_loop ex d [] = (Inr (), d)"
| "refresh_loop ex d (query # rest) =
     (case refresh_query ex d query of
        (Inl e, d') \<Rightarrow> (Inl e, d')
      | (Inr u, d') \<Rightarrow> refresh_loop ex d' rest)"

definition refresh_status :: "py_exec \<Rightarrow> MiedaDevice \<Rightarrow> (exn + unit) \<times> MiedaDevice" where
  "refresh_status ex d = refresh_loop ex d (queries d)"

subsection \<open>The control path shared by \<open>set_attribute\<close> and \<open>set_attributes\<close>\<close>

text \<open>Lines 253--265 and 351--363: the relay's \<open>send_device_control\<close>.\<close>

definition cloud_control :: "MiedaDevice \<Rightarrow> nested dict \<Rightarrow> (exn + unit) \<times> MiedaDevice" where
  "cloud_control d nested_status =
     (case cloud d of
        None \<Rightarrow> (Inr (), d)
      | Some c \<Rightarrow>
          if has_send_device_control c \<and>
             (cloud_class c = MSmartHomeCloud \<or> cloud_class c = MeijuCloud) then
            (let d1 = emit (SendDeviceControl nested_status (attributes d)) d in
             case send_device_control c nested_status (attributes d) of
               Inl e \<Rightarrow> (Inl e, d1)
             | Inr u \<Rightarrow> (Inr (), d1))
          else (Inr (), d))"

text \<open>
  Lines 244--265 and 342--363. The \<open>try\<close> spans \<open>build_control\<close> and \<open>_build_send\<close>;
  its handler logs and falls through to the relay.
\<close>

definition control_send :: "py_exec \<Rightarrow> MiedaDevice \<Rightarrow> nested dict \<Rightarrow> (exn + unit) \<times> MiedaDevice" where
  "control_send ex d nested_status =
     (case lua_runtime d of
        None \<Rightarrow> cloud_control d nested_status
      | Some rt \<Rightarrow>
          (let d1 = emit (BuildControl nested_status (attributes d)) d in
           case build_control rt nested_status (attributes d) of
             Inl e \<Rightarrow> cloud_control d1 nested_status
           | Inr None \<Rightarrow> cloud_control d1 nested_status
           | Inr (Some set_cmd) \<Rightarrow>
               if set_cmd = [] then cloud_control d1 nested_status
               else
                 (case build_send ex d1 set_cmd of
                    (Inl e, d2) \<Rightarrow> cloud_control d2 nested_status
                  | (Inr u, d2) \<Rightarrow> (Inr (), d2))))"

text \<open>Lines 178--179 and 269--270: the centralized attributes, read from the store.\<close>

definition centralized_status :: "MiedaDevice \<Rightarrow> val dict" where
  "centralized_status d =
     fold (\<lambda>attr new_status. AList.update attr (dict_get (attributes d) attr VNone) new_status)
       (centralized d) []"

text \<open>Lines 87--93.\<close>

definition determine_control_status_based_on_running :: "val \<Rightarrow> val" where
  "determine_control_status_based_on_running running_status =
     (if py_eq running_status (VStr ''start'') then VStr ''start'' else VStr ''pause'')"

text \<open>
  Lines 216--227 and 313--324: position 0 flips the stored location and its label, in the
  store and in the payload.
\<close>

definition flip_location :: "MiedaDevice \<Rightarrow> val dict \<Rightarrow> val dict \<times> MiedaDevice" where
  "flip_location d new_status =
     (let current_location = dict_get (attributes d) ''db_location'' (VInt 1);
          new_location = (if py_eq current_location (VInt 1) then 2 else 1 :: int);
          d1 = set_attr ''db_location'' (VInt new_location) d;
          new_status1 = AList.update ''db_location'' (VInt new_location) new_status
      in if new_location = 1 then
           (AList.update ''db_location_selection'' (VStr ''left'') new_status1,
            set_attr ''db_location_selection'' (VStr ''left'') d1)
         else if new_location = 2 then
           (AList.update ''db_location_selection'' (VStr ''right'') new_status1,
            set_attr ''db_location_selection'' (VStr ''right'') d1)
         else (new_status1, d1))"

text \<open>
  Lines 230--239 and 327--336: another attribute is written; the payload gets the
  location that the stored position selects.
\<close>

definition location_for_position :: "MiedaDevice \<Rightarrow> val dict \<Rightarrow> val dict" where
  "location_for_position d new_status =
     (let db_position = dict_get (attributes d) ''db_position'' (VInt 1) in
      if py_eq db_position (VInt 0) then
        (let current_location = dict_get (attributes d) ''db_location'' (VInt 1);
             calculated_location = (if py_eq current_location (VInt 1) then 2 else 1 :: int)
         in AList.update ''db_location'' (VInt calculated_location) new_status)
      else if py_eq db_position (VInt 1) then
        (let current_location = dict_get (attributes d) ''db_location'' (VInt 1)
         in AList.update ''db_location'' current_location new_status)
      else new_status)"

text \<open>Lines 187--192 and 283--288: the selection label sets the stored location.\<close>

definition select_location :: "val \<Rightarrow> MiedaDevice \<Rightarrow> val dict \<Rightarrow> val dict \<times> MiedaDevice" where
  "select_location v d new_status =
     (if py_eq v (VStr ''left'') then
        (AList.update ''db_location'' (VInt 1) new_status, set_attr ''db_location'' (VInt 1) d)
      else if py_eq v (VStr ''right'') then
        (AList.update ''db_location'' (VInt 2) new_status, set_attr ''db_location'' (VInt 2) d)
      else (new_status, d))"

subsection \<open>\<open>set_attribute\<close> (lines 175--265)\<close>

text \<open>Lines 177--239: the flat payload \<open>new_status\<close>, and the store as its building leaves it.\<close>

definition set_attribute_status ::
  "py_exec \<Rightarrow> MiedaDevice \<Rightarrow> string \<Rightarrow> val \<Rightarrow> (exn + val dict) \<times> MiedaDevice" where
  "set_attribute_status ex d attribute v =
     (let new_status = AList.update attribute v (centralized_status d) in
      if device_type d = 0xD9 then
        (if attribute = ''db_location_selection'' then
           (case select_location v d new_status of
              (new_status1, d1) \<Rightarrow>
                (let new_status2 = AList.update ''db_location_selection'' v new_status1 in
                 case refresh_status ex d1 of
                   (Inl e, d2) \<Rightarrow> (Inl e, d2)
                 | (Inr u, d2) \<Rightarrow>
                     (let running_status = dict_get (attributes d2) ''db_running_status'' VNone in
                      if running_status \<noteq> VNone then
                        (let control_status =
                               determine_control_status_based_on_running running_status
                         in (Inr (AList.update ''db_control_status'' control_status new_status2),
                             set_attr ''db_control_status'' control_status d2))
                      else (Inr new_status2, d2))))
         else if attribute = ''db_position'' then
           (if py_eq v (VInt 1) then (Inr new_status, d)
            else if py_eq v (VInt 0) then
              (case flip_location d new_status of (new_status1, d1) \<Rightarrow> (Inr new_status1, d1))
            else (Inr new_status, d))
         else (Inr (location_for_position d new_status), d))
      else (Inr new_status, d))"

definition set_attribute ::
  "py_exec \<Rightarrow> MiedaDevice \<Rightarrow> string \<Rightarrow> val \<Rightarrow> (exn + unit) \<times> MiedaDevice" where
  "set_attribute ex d attribute v =
     (if has_key (attributes d) attribute then
        (case set_attribute_status ex d attribute v of
           (Inl e, d1) \<Rightarrow> (Inl e, d1)
         | (Inr new_status, d1) \<Rightarrow>
             (case convert_to_nested_structure new_status of
                Inl e \<Rightarrow> (Inl e, d1)
              | Inr nested_status \<Rightarrow> control_send ex d1 nested_status))
      else (Inr (), d))"

subsection \<open>\<open>set_attributes\<close> (lines 267--363)\<close>

text \<open>Lines 271--275: the names that are in the store go into the payload.\<close>

fun collect_known :: "val dict \<Rightarrow> val dict \<Rightarrow> bool \<times> val dict \<Rightarrow> bool \<times> val dict" where
  "collect_known store [] acc = acc"
| "collect_known store ((attribute, v) # rest) (has_new, new_status) =
     collect_known store rest
       (if has_key store attribute then (True, AList.update attribute v new_status)
        else (has_new, new_status))"

text \<open>Lines 278--336. The tests are on the argument \<open>attributes\<close>, here \<open>attrs\<close>.\<close>

definition set_attributes_status ::
  "py_exec \<Rightarrow> MiedaDevice \<Rightarrow> val dict \<Rightarrow> val dict \<Rightarrow> (exn + val dict) \<times> MiedaDevice" where
  "set_attributes_status ex d attrs new_status =
     (if device_type d = 0xD9 then
        (if has_key attrs ''db_location_selection'' then
           (let location_selection = dict_get attrs ''db_location_selection'' VNone in
            case select_location location_selection d new_status of
              (new_status1, d1) \<Rightarrow>
                (let new_status2 =
                       AList.update ''db_location_selection'' location_selection new_status1
                 in case refresh_status ex d1 of
                      (Inl e, d2) \<Rightarrow> (Inl e, d2)
                    | (Inr u, d2) \<Rightarrow>
                        (let running_status =
                               dict_get (attributes d2) ''db_running_status'' VNone
                         in if running_status \<noteq> VNone then
                              (Inr new_status2,
                               set_attr ''db_control_status''
                                 (determine_control_status_based_on_running running_status) d2)
                            else (Inr new_status2, d2))))
         else if has_key attrs ''db_position'' then
           (let position_value = dict_get attrs ''db_position'' VNone in
            if py_eq position_value (VInt 1) then
              (Inr (AList.update ''db_location''
                      (dict_get (attributes d) ''db_location'' (VInt 1)) new_status), d)
            else if py_eq position_value (VInt 0) then
              (case flip_location d new_status of (new_status1, d1) \<Rightarrow> (Inr new_status1, d1))
            else (Inr new_status, d))
         else (Inr (location_for_position d new_status), d))
      else (Inr new_status, d))"

definition set_attributes ::
  "py_exec \<Rightarrow> MiedaDevice \<Rightarrow> val dict \<Rightarrow> (exn + unit) \<times> MiedaDevice" where
  "set_attributes ex d attrs =
     (case collect_known (attributes d) attrs (False, centralized_status d) of
        (has_new, new_status) \<Rightarrow>
          (case set_attributes_status ex d attrs new_status of
             (Inl e, d1) \<Rightarrow> (Inl e, d1)
           | (Inr new_status', d1) \<Rightarrow>
               (case convert_to_nested_structure new_status' of
                  Inl e \<Rightarrow> (Inl e, d1)
                | Inr nested_status \<Rightarrow>
                    if has_new then control_send ex d1 nested_status else (Inr (), d1))))"

subsection \<open>An instance of \<open>exec\<close> for the rule \<open>[a] = [b]*2\<close>\<close>

text \<open>Python's \<open>v * 2\<close> on a scalar: integers double, strings repeat, \<open>None\<close> raises.\<close>

definition py_mul2 :: "val \<Rightarrow> exn + val" where
  "py_mul2 v =
     (case v of
        VInt i \<Rightarrow> Inr (VInt (i * 2))
      | VBool b \<Rightarrow> Inr (VInt (if b then 2 else 0))
      | VStr s \<Rightarrow> Inr (VStr (s @ s))
      | VNone \<Rightarrow> Inl TypeError)"

definition stmt1_ab :: string where
  "stmt1_ab = ''self._attributes['' @ dq @ ''a'' @ dq @ ''] = self._attributes['' @ dq @ ''b'' @ dq @ '']*2''"

definition stmt2_ab :: string where
  "stmt2_ab = ''new_status['' @ dq @ ''a'' @ dq @ ''] = new_status['' @ dq @ ''b'' @ dq @ '']*2''"

text \<open>
  What \<open>exec\<close> does on the two statements that the rule with lvalue \<open>[a]\<close> and rvalue
  \<open>[b]*2\<close> generates: the subscript raises \<open>KeyError\<close> when \<open>b\<close> is missing, the product
  may raise, otherwise \<open>a\<close> is assigned. No other statement is given to this instance in
  what follows.
\<close>

definition exec_ab :: py_exec where
  "exec_ab stmt st =
     (if stmt = stmt1_ab then
        (case map_of (fst st) ''b'' of
           None \<Rightarrow> (Some KeyError, st)
         | Some v \<Rightarrow>
             (case py_mul2 v of
                Inl e \<Rightarrow> (Some e, st)
              | Inr w \<Rightarrow> (None, (AList.update ''a'' w (fst st), snd st))))
      else if stmt = stmt2_ab then
        (case map_of (snd st) ''b'' of
           None \<Rightarrow> (Some KeyError, st)
         | Some v \<Rightarrow>
             (case py_mul2 v of
                Inl e \<Rightarrow> (Some e, st)
              | Inr w \<Rightarrow> (None, (fst st, AList.update ''a'' w (snd st)))))
      else (Some (Raised ''statement outside the instance''), st))"

text \<open>A session with no relay, no codec, no rule, no default and no subscriber.\<close>

definition bare :: "int \<Rightarrow> val dict \<Rightarrow> MiedaDevice" where
  "bare t attrs =
     \<lparr>device_type = t, attributes = attrs, queries = [QDict []], centralized = [],
      calculate_get = [], default_values = [], updates = [], lua_runtime = None,
      cloud = None, trace = []\<rparr>"

text \<open>Example sessions: one subscriber; a default for \<open>mode\<close>; a store that holds values.\<close>

definition session_ac :: MiedaDevice where
  "session_ac = (bare 0xAC [])\<lparr>updates := [7]\<rparr>"

definition session_mode :: MiedaDevice where
  "session_mode =
     (bare 0xAC [])\<lparr>updates := [7], default_values := [(''mode'', VStr ''auto'')]\<rparr>"

definition session_on :: MiedaDevice where
  "session_on =
     (bare 0xAC [(''power'', VStr ''on''), (''mode'', VStr ''cool'')])
       \<lparr>updates := [7], default_values := [(''mode'', VStr ''auto'')]\<rparr>"

text \<open>
  An example relay that has no status to give and answers every command with the same
  reply, and an example codec that builds a query command, builds no control command and
  decodes every reply to one status.
\<close>

definition relay :: MideaCloud where
  "relay =
     \<lparr>cloud_class = MeijuCloud, has_get_device_status = True, has_send_device_control = True,
      get_device_status = (\<lambda>q. Inr None),
      send_device_control = (\<lambda>control status. Inr ()),
      send_cloud = (\<lambda>data. Inr (Some ''0102''))\<rparr>"

definition codec :: MideaCodec where
  "codec =
     \<lparr>build_query = (\<lambda>q. Inr (Some ''aa55'')),
      build_control = (\<lambda>control status. Inr None),
      decode_status = (\<lambda>reply. Inr (Some [(''power'', VStr ''on'')]))\<rparr>"

definition session_relay :: MiedaDevice where
  "session_relay = session_ac\<lparr>lua_runtime := Some codec, cloud := Some relay\<rparr>"

text \<open>A relay whose status and control calls raise, and a session that uses it.\<close>

definition relay_down :: MideaCloud where
  "relay_down =
     relay\<lparr>get_device_status := (\<lambda>q. Inl (Raised ''timeout'')),
           send_device_control := (\<lambda>control status. Inl (Raised ''timeout''))\<rparr>"

definition codec_down :: MideaCodec where
  "codec_down = codec\<lparr>build_control := (\<lambda>control status. Inl (Raised ''lua''))\<rparr>"

definition session_down :: MiedaDevice where
  "session_down = session_on\<lparr>lua_runtime := Some codec_down, cloud := Some relay_down\<rparr>"

definition session_fallback :: MiedaDevice where
  "session_fallback = session_on\<lparr>lua_runtime := Some codec_down, cloud := Some relay\<rparr>"

text \<open>A session with a centralized attribute, the example codec and the example relay.\<close>

definition session_ctl :: MiedaDevice where
  "session_ctl =
     session_on\<lparr>centralized := [''mode''], lua_runtime := Some codec, cloud := Some relay\<rparr>"

text \<open>Dual-chamber sessions (device type 0xD9), without and with collaborators.\<close>

definition session_d9 :: MiedaDevice where
  "session_d9 = bare 0xD9 [(''db_position'', VInt 0), (''db_location'', VInt 1)]"

definition session_d9_kept :: MiedaDevice where
  "session_d9_kept = bare 0xD9 [(''db_position'', VInt 1), (''db_location'', VInt 2)]"

definition session_d9_relay :: MiedaDevice where
  "session_d9_relay =
     (bare 0xD9 [(''power'', VStr ''on'')])\<lparr>lua_runtime := Some codec, cloud := Some relay\<rparr>"

text \<open>
  A codec that builds a control command, a relay whose \<open>send_cloud\<close> raises, and
  sessions with a failing collaborator.
\<close>

definition codec_cmd :: MideaCodec where
  "codec_cmd = codec\<lparr>build_control := (\<lambda>control status. Inr (Some ''aa55''))\<rparr>"

definition relay_offline :: MideaCloud where
  "relay_offline = relay\<lparr>send_cloud := (\<lambda>data. Inl (Raised ''offline''))\<rparr>"

definition session_offline :: MiedaDevice where
  "session_offline = session_on\<lparr>lua_runtime := Some codec_cmd, cloud := Some relay_offline\<rparr>"

definition session_d9_down :: MiedaDevice where
  "session_d9_down = session_d9\<lparr>lua_runtime := Some codec_down, cloud := Some relay\<rparr>"

text \<open>The rule of the example, with bracketed paths.\<close>

definition rule_ab :: CalculateRule where
  "rule_ab = \<lparr>lvalue = Some ''[a]'', rvalue = Some ''[b]*2''\<rparr>"

definition session_rule :: "CalculateRule \<Rightarrow> MiedaDevice" where
  "session_rule c = session_ac\<lparr>calculate_get := [c]\<rparr>"

subsection \<open>An instance of \<open>exec\<close> for a rule with two references\<close>

text \<open>
  Python's \<open>v + w\<close> on scalars: integers (and booleans, as 0 and 1) add, strings
  concatenate, everything else raises \<open>TypeError\<close>.
\<close>

definition py_int :: "val \<Rightarrow> int option" where
  "py_int v =
     (case v of VInt i \<Rightarrow> Some i | VBool b \<Rightarrow> Some (if b then 1 else 0) | _ \<Rightarrow> None)"

definition py_add :: "val \<Rightarrow> val \<Rightarrow> exn + val" where
  "py_add v w =
     (case (v, w) of
        (VStr s, VStr t) \<Rightarrow> Inr (VStr (s @ t))
      | _ \<Rightarrow>
          (case (py_int v, py_int w) of
             (Some i, Some j) \<Rightarrow> Inr (VInt (i + j))
           | _ \<Rightarrow> Inl TypeError))"

text \<open>A rule with two references, \<open>[t] = [a]+[c]\<close>, and its two statements.\<close>

definition rule_sum :: CalculateRule where
  "rule_sum = \<lparr>lvalue = Some ''[t]'', rvalue = Some ''[a]+[c]''\<rparr>"

definition stmt1_sum :: string where
  "stmt1_sum =
     ''self._attributes['' @ dq @ ''t'' @ dq @ ''] = self._attributes['' @ dq @ ''a'' @ dq @
     '']+self._attributes['' @ dq @ ''c'' @ dq @ '']''"

definition stmt2_sum :: string where
  "stmt2_sum =
     ''new_status['' @ dq @ ''t'' @ dq @ ''] = new_status['' @ dq @ ''a'' @ dq @
     '']+new_status['' @ dq @ ''c'' @ dq @ '']''"

text \<open>
  \<open>dictionary["t"] = dictionary["a"] + dictionary["c"]\<close>: the subscripts are evaluated
  from left to right and raise \<open>KeyError\<close> on a missing key, then the sum may raise, then
  \<open>t\<close> is assigned.
\<close>

definition assign_sum :: "val dict \<Rightarrow> exn + val dict" where
  "assign_sum m =
     (case map_of m ''a'' of
        None \<Rightarrow> Inl KeyError
      | Some v \<Rightarrow>
          (case map_of m ''c'' of
             None \<Rightarrow> Inl KeyError
           | Some w \<Rightarrow>
               (case py_add v w of
                  Inl e \<Rightarrow> Inl e
                | Inr x \<Rightarrow> Inr (AList.update ''t'' x m))))"

text \<open>
  An instance of \<open>exec\<close> for the statements of both example rules: it is \<open>exec_ab\<close> on
  the statements of \<open>[a] = [b]*2\<close>.
\<close>

definition exec_sum :: py_exec where
  "exec_sum stmt st =
     (if stmt = stmt1_sum then
        (case assign_sum (fst st) of
           Inl e \<Rightarrow> (Some e, st)
         | Inr m \<Rightarrow> (None, (m, snd st)))
      else if stmt = stmt2_sum then
        (case assign_sum (snd st) of
           Inl e \<Rightarrow> (Some e, st)
         | Inr m \<Rightarrow> (None, (fst st, m)))
      else exec_ab stmt st)"

text \<open>A session whose store holds \<open>c\<close>, with the rule \<open>[t] = [a]+[c]\<close>; one with both rules.\<close>

definition session_sum :: MiedaDevice where
  "session_sum = (bare 0xAC [(''c'', VInt 10)])\<lparr>calculate_get := [rule_sum], updates := [7]\<rparr>"

definition session_chain :: MiedaDevice where
  "session_chain = session_ac\<lparr>calculate_get := [rule_ab, rule_sum]\<rparr>"

text \<open>A relay that reports \<open>b = 3\<close>, and a session with the rule \<open>[a] = [b]*2\<close> that uses it.\<close>

definition relay_report :: MideaCloud where
  "relay_report = relay\<lparr>get_device_status := (\<lambda>q. Inr (Some [(''b'', VInt 3)]))\<rparr>"

definition session_report :: MiedaDevice where
  "session_report =
     (bare 0xAC [(''b'', VInt 5)])
       \<lparr>calculate_get := [rule_ab], updates := [7], cloud := Some relay_report\<rparr>"

subsection \<open>Reading a nested payload\<close>

text \<open>
  Reading a nested payload along a path of keys: the value found under the last key,
  after descending through the dictionaries of the keys before it.
\<close>

fun nested_lookup :: "string list \<Rightarrow> nested dict \<Rightarrow> nested option" where
  "nested_lookup [] d = None"
| "nested_lookup [k] d = map_of d k"
| "nested_lookup (k # ks) d =
     (case map_of d k of Some (Node sub) \<Rightarrow> nested_lookup ks sub | _ \<Rightarrow> None)"

text \<open>Paths of which none is a prefix of another.\<close>

fun apart :: "string list list \<Rightarrow> bool" where
  "apart [] = True"
| "apart (p # ps) = ((\<forall>q \<in> set ps. \<not> prefix p q \<and> \<not> prefix q p) \<and> apart ps)"

text \<open>A session with dotted attribute names, one of them centralized.\<close>

definition session_dot :: MiedaDevice where
  "session_dot =
     (bare 0xAC [(''x.y'', VInt 1), (''x.z'', VInt 2)])
       \<lparr>centralized := [''x.z''], lua_runtime := Some codec, cloud := Some relay\<rparr>"

text \<open>The store with the selection label of the right chamber.\<close>

definition label_right :: "val dict \<Rightarrow> val dict" where
  "label_right a = AList.update ''db_location_selection'' (VStr ''right'') a"

subsection \<open>Relations between two states of a session\<close>

text \<open>
  \<open>evolves d d'\<close>: the configuration and the collaborators of \<open>d'\<close> are those of \<open>d\<close>, and
  the trace of \<open>d'\<close> extends the trace of \<open>d\<close>.
\<close>

definition evolves :: "MiedaDevice \<Rightarrow> MiedaDevice \<Rightarrow> bool" where
  "evolves d d' =
     (device_type d' = device_type d \<and> queries d' = queries d \<and>
      centralized d' = centralized d \<and> calculate_get d' = calculate_get d \<and>
      default_values d' = default_values d \<and> updates d' = updates d \<and>
      lua_runtime d' = lua_runtime d \<and> cloud d' = cloud d \<and>
      prefix (trace d) (trace d'))"

text \<open>
  \<open>merges ex d d'\<close>: \<open>d'\<close> is reached from \<open>d\<close> by recording calls in the trace and by
  running the status merge, and by nothing else.
\<close>

inductive merges :: "py_exec \<Rightarrow> MiedaDevice \<Rightarrow> MiedaDevice \<Rightarrow> bool" for ex :: py_exec where
  merges_refl: "merges ex d d"
| merges_emit: "merges ex d d' \<Longrightarrow> merges ex d (emit e d')"
| merges_parse: "merges ex d d' \<Longrightarrow> merges ex d (snd (parse_cloud_message ex d' status upd))"

text \<open>
  \<open>reported ex d a\<close>: the store \<open>a\<close> is reached from the store of \<open>d\<close> by status merges
  only, each of a status that the relay of \<open>d\<close> returned from \<open>get_device_status\<close>, or
  that the codec of \<open>d\<close> decoded from a reply the relay returned from \<open>send_cloud\<close>.
\<close>

inductive reported :: "py_exec \<Rightarrow> MiedaDevice \<Rightarrow> val dict \<Rightarrow> bool"
  for ex :: py_exec and d :: MiedaDevice where
  reported_start: "reported ex d (attributes d)"
| reported_status:
    "reported ex d a \<Longrightarrow> cloud d = Some c \<Longrightarrow> get_device_status c q = Inr (Some status) \<Longrightarrow>
     reported ex d (attributes (snd (parse_cloud_message ex (d\<lparr>attributes := a\<rparr>) status True)))"
| reported_reply:
    "reported ex d a \<Longrightarrow> cloud d = Some c \<Longrightarrow> send_cloud c data = Inr (Some reply) \<Longrightarrow>
     lua_runtime d = Some rt \<Longrightarrow> decode_status rt reply = Inr (Some status) \<Longrightarrow>
     reported ex d (attributes (snd (parse_cloud_message ex (d\<lparr>attributes := a\<rparr>) status False)))"


section \<open>Properties\<close>

lemmas example_defs = bare_def session_ac_def session_mode_def session_on_def relay_def
  codec_def session_relay_def relay_down_def codec_down_def session_down_def
  session_fallback_def session_d9_def session_d9_kept_def session_d9_relay_def
  rule_ab_def session_rule_def session_ctl_def codec_cmd_def relay_offline_def
  session_offline_def session_d9_down_def relay_report_def session_report_def session_dot_def

lemmas merge_defs = parse_cloud_message_def staged_def unset_def differs_def dict_get_def
  update_all_def emit_def

subsection \<open>What a merge stages\<close>

lemma map_of_stage_defaults:
  "map_of (stage_defaults attrs dvs ns) k =
     (case map_of (rev dvs) k of
        Some v \<Rightarrow> if unset attrs k then Some v else map_of ns k
      | None \<Rightarrow> map_of ns k)"
proof (induction dvs arbitrary: ns)
  case Nil
  show ?case by simp
next
  case (Cons p dvs)
  obtain a dv where p: "p = (a, dv)" by (cases p)
  show ?case
    unfolding p
    by (simp add: Cons.IH update_conv' map_add_def split: option.splits)
qed

lemma map_of_rev_distinct:
  "distinct (map fst xs) \<Longrightarrow> map_of (rev xs) = map_of xs"
  by (simp add: map_of_inject_set distinct_rev rev_map[symmetric] del: rev_map)

lemma map_of_stage_status:
  "map_of (stage_status attrs status ks ns) k =
     (if k \<in> set ks \<and> differs attrs k (dict_get status k VNone)
      then Some (dict_get status k VNone) else map_of ns k)"
  by (induction ks arbitrary: ns) (auto simp: Let_def update_conv')

lemma map_of_staged:
  assumes "distinct (map fst (default_values d))"
  shows "map_of (staged d status) k =
     (case map_of status k of
        Some v \<Rightarrow> if differs (attributes d) k v then Some v
                  else if unset (attributes d) k then map_of (default_values d) k else None
      | None \<Rightarrow> if unset (attributes d) k then map_of (default_values d) k else None)"
proof -
  have k: "k \<in> set (map fst status) \<longleftrightarrow> map_of status k \<noteq> None"
    by (simp add: map_of_eq_None_iff)
  show ?thesis
    unfolding staged_def map_of_stage_status map_of_stage_defaults
      map_of_rev_distinct[OF assms] k
    by (auto simp: dict_get_def split: option.splits)
qed

lemma stage_defaults_none:
  "\<forall>k \<in> set (map fst dvs). \<not> unset attrs k \<Longrightarrow> stage_defaults attrs dvs ns = ns"
  by (induction dvs arbitrary: ns) auto

lemma stage_status_none:
  "\<forall>k \<in> set ks. \<not> differs attrs k (dict_get status k VNone) \<Longrightarrow>
   stage_status attrs status ks ns = ns"
  by (induction ks arbitrary: ns) (auto simp: Let_def)

subsection \<open>The subscribers and the result of a merge\<close>

lemma update_loop_eq:
  "update_loop us st d = d\<lparr>trace := trace d @ map (\<lambda>u. Notify u st) us\<rparr>"
  by (induction us arbitrary: d) (simp_all add: emit_def)

lemma update_all_eq:
  "update_all d st = d\<lparr>trace := trace d @ map (\<lambda>u. Notify u st) (updates d)\<rparr>"
  by (simp add: update_all_def update_loop_eq)

lemma parse_result: "fst (parse_cloud_message ex d status upd) = SUCCESS"
  by (simp add: parse_cloud_message_def Let_def split: prod.splits)

lemma parse_no_update:
  "trace (snd (parse_cloud_message ex d status False)) = trace d"
  by (simp add: parse_cloud_message_def Let_def split: prod.splits)

lemma parse_False_dest:
  "parse_cloud_message ex d status False = (r, d') \<Longrightarrow> r = SUCCESS \<and> trace d' = trace d"
  using parse_result [of ex d status False] parse_no_update [of ex d status] by simp

subsection \<open>C1: the delta and the subscribers\<close>

text \<open>
  C1, as the code has it. A merge with notification computes a delta: the defaults of the
  attributes that are unset, overlaid by every incoming key whose value differs from the
  stored one, then changed by the assignments of the rules that fire. When the staged
  delta is not empty, every registered subscriber is called exactly once, in the order of
  registration, with exactly that delta. The merge does not write the staged keys to the
  attribute store: the store changes only by the rules' assignments to
  \<open>self._attributes\<close>, so with no rule it is the same after the merge.
\<close>

theorem merge_notifies_delta:
  "parse_cloud_message ex d status True =
     (SUCCESS,
      if staged d status = [] then d
      else d\<lparr>attributes := fst (calculate ex (calculate_get d) (attributes d, staged d status)),
             trace := trace d @
               map (\<lambda>u. Notify u (snd (calculate ex (calculate_get d) (attributes d, staged d status))))
                 (updates d)\<rparr>)
   \<and> (calculate_get d = [] \<longrightarrow>
        attributes (snd (parse_cloud_message ex d status True)) = attributes d)
   \<and> (distinct (map fst (default_values d)) \<longrightarrow>
        (\<forall>k. map_of (staged d status) k =
           (case map_of status k of
              Some v \<Rightarrow> if differs (attributes d) k v then Some v
                        else if unset (attributes d) k then map_of (default_values d) k else None
            | None \<Rightarrow> if unset (attributes d) k then map_of (default_values d) k else None)))"
proof (intro conjI impI allI)
  show "parse_cloud_message ex d status True =
     (SUCCESS,
      if staged d status = [] then d
      else d\<lparr>attributes := fst (calculate ex (calculate_get d) (attributes d, staged d status)),
             trace := trace d @
               map (\<lambda>u. Notify u (snd (calculate ex (calculate_get d) (attributes d, staged d status))))
                 (updates d)\<rparr>)"
    by (simp add: parse_cloud_message_def Let_def update_all_eq split: prod.splits)
next
  assume "calculate_get d = []"
  then show "attributes (snd (parse_cloud_message ex d status True)) = attributes d"
    by (simp add: parse_cloud_message_def Let_def update_all_eq)
next
  fix k
  assume "distinct (map fst (default_values d))"
  then show "map_of (staged d status) k =
           (case map_of status k of
              Some v \<Rightarrow> if differs (attributes d) k v then Some v
                        else if unset (attributes d) k then map_of (default_values d) k else None
            | None \<Rightarrow> if unset (attributes d) k then map_of (default_values d) k else None)"
    by (rule map_of_staged)
qed

theorem merge_notifies_delta_witness:
  "calculate_get session_ac = [] \<and> distinct (map fst (default_values session_ac))
   \<and> parse_cloud_message exec_ab session_ac [(''power'', VStr ''on'')] True =
       (SUCCESS, session_ac\<lparr>trace := [Notify 7 [(''power'', VStr ''on'')]]\<rparr>)
   \<and> attributes (snd (parse_cloud_message exec_ab session_ac [(''power'', VStr ''on'')] True)) = []
   \<and> map_of (staged session_ac [(''power'', VStr ''on'')]) ''power'' = Some (VStr ''on'')"
  using merge_notifies_delta [of exec_ab session_ac "[(''power'', VStr ''on'')]"]
  by (simp add: example_defs staged_def differs_def dict_get_def unset_def)

text \<open>
  The claim as stated fails: the subscriber received \<open>power\<close> in the delta, and the store
  has no \<open>power\<close> after the merge.
\<close>

theorem merge_store_counterexample:
  "trace (snd (parse_cloud_message exec_ab session_ac [(''power'', VStr ''on'')] True)) =
     [Notify 7 [(''power'', VStr ''on'')]]
   \<and> map_of (attributes (snd (parse_cloud_message exec_ab session_ac [(''power'', VStr ''on'')] True)))
       ''power'' = None"
  by (simp add: example_defs merge_defs)

subsection \<open>C2: merging the same status again\<close>

text \<open>
  C2, as the code has it. When the store already holds every key of the status with an
  equal value and no configured default is pending (every attribute with a default is
  stored and not \<open>None\<close>), a merge of that status stages nothing, calls no subscriber and
  leaves the session as it was. The merge does not bring the store into that state
  itself: with no rule configured, the store is the same after a merge, and a second
  merge of the same status stages exactly what the first one staged.
\<close>

theorem merge_stored_status_empty:
  "((\<forall>k \<in> set (map fst status). \<not> differs (attributes d) k (dict_get status k VNone)) \<and>
    (\<forall>k \<in> set (map fst (default_values d)). \<not> unset (attributes d) k) \<longrightarrow>
      staged d status = [] \<and> parse_cloud_message ex d status upd = (SUCCESS, d))
   \<and> (calculate_get d = [] \<longrightarrow>
        attributes (snd (parse_cloud_message ex d status upd)) = attributes d \<and>
        staged (snd (parse_cloud_message ex d status upd)) status = staged d status)"
proof (intro conjI impI)
  assume h: "(\<forall>k \<in> set (map fst status). \<not> differs (attributes d) k (dict_get status k VNone)) \<and>
    (\<forall>k \<in> set (map fst (default_values d)). \<not> unset (attributes d) k)"
  have e: "staged d status = []"
    unfolding staged_def
    by (simp only: stage_defaults_none [OF conjunct2 [OF h]] stage_status_none [OF conjunct1 [OF h]])
  then show "staged d status = []" .
  from e show "parse_cloud_message ex d status upd = (SUCCESS, d)"
    by (simp add: parse_cloud_message_def)
next
  assume n: "calculate_get d = []"
  then show "attributes (snd (parse_cloud_message ex d status upd)) = attributes d"
    by (simp add: parse_cloud_message_def Let_def update_all_eq)
  from n show "staged (snd (parse_cloud_message ex d status upd)) status = staged d status"
    by (simp add: parse_cloud_message_def Let_def update_all_eq staged_def)
qed

theorem merge_stored_status_empty_witness:
  "\<not> differs (attributes session_on) ''power'' (VStr ''on'')
   \<and> \<not> unset (attributes session_on) ''mode''
   \<and> staged session_on [(''power'', VStr ''on'')] = []
   \<and> parse_cloud_message exec_ab session_on [(''power'', VStr ''on'')] True = (SUCCESS, session_on)
   \<and> calculate_get session_ac = []
   \<and> staged session_ac [(''power'', VStr ''on'')] = [(''power'', VStr ''on'')]
   \<and> staged (snd (parse_cloud_message exec_ab session_ac [(''power'', VStr ''on'')] True))
        [(''power'', VStr ''on'')] = [(''power'', VStr ''on'')]"
proof -
  have h1: "\<forall>k \<in> set (map fst [(''power'', VStr ''on'')]).
      \<not> differs (attributes session_on) k (dict_get [(''power'', VStr ''on'')] k VNone)"
    by (simp add: example_defs differs_def dict_get_def)
  have h2: "\<forall>k \<in> set (map fst (default_values session_on)). \<not> unset (attributes session_on) k"
    by (simp add: example_defs unset_def)
  have a: "\<not> differs (attributes session_on) ''power'' (VStr ''on'')"
    "\<not> unset (attributes session_on) ''mode''"
    by (simp_all add: example_defs differs_def unset_def)
  have n: "calculate_get session_ac = []"
    by (simp add: session_ac_def bare_def)
  have s: "staged session_ac [(''power'', VStr ''on'')] = [(''power'', VStr ''on'')]"
    by (simp add: session_ac_def bare_def staged_def differs_def dict_get_def)
  have 1: "staged session_on [(''power'', VStr ''on'')] = [] \<and>
      parse_cloud_message exec_ab session_on [(''power'', VStr ''on'')] True = (SUCCESS, session_on)"
    using merge_stored_status_empty [of "[(''power'', VStr ''on'')]" session_on exec_ab True]
      h1 h2 by blast
  have 2: "staged (snd (parse_cloud_message exec_ab session_ac [(''power'', VStr ''on'')] True))
        [(''power'', VStr ''on'')] = staged session_ac [(''power'', VStr ''on'')]"
    using merge_stored_status_empty [of "[(''power'', VStr ''on'')]" session_ac exec_ab True] n
    by blast
  show ?thesis
    using a n s 1 2 by simp
qed

text \<open>
  The claim as stated fails: the second merge of the same status stages \<open>power\<close> again
  and calls the subscriber a second time.
\<close>

theorem merge_twice_counterexample:
  "trace (snd (parse_cloud_message exec_ab
                 (snd (parse_cloud_message exec_ab session_ac [(''power'', VStr ''on'')] True))
                 [(''power'', VStr ''on'')] True)) =
     [Notify 7 [(''power'', VStr ''on'')], Notify 7 [(''power'', VStr ''on'')]]
   \<and> staged (snd (parse_cloud_message exec_ab session_ac [(''power'', VStr ''on'')] True))
        [(''power'', VStr ''on'')] = [(''power'', VStr ''on'')]"
  by (simp add: example_defs merge_defs Let_def)

subsection \<open>C6: default values\<close>

text \<open>
  C6, as the code has it. For an attribute with the configured default \<open>D\<close>: a merge of a
  status that does not report the attribute stages \<open>D\<close> when the attribute is absent from
  the store or \<open>None\<close>, and stages nothing for it otherwise; a reported value that differs
  from the stored one is staged in place of the default in the same merge. A merge does
  not store the reported value, so with no rule configured what a later merge stages is
  what it would have staged before: the default comes back until the store holds a value.
\<close>

theorem default_seeding:
  assumes "distinct (map fst (default_values d))"
    and "map_of (default_values d) k = Some D"
  shows "(unset (attributes d) k \<and> map_of status k = None \<longrightarrow> map_of (staged d status) k = Some D)
       \<and> (\<not> unset (attributes d) k \<and> map_of status k = None \<longrightarrow> map_of (staged d status) k = None)
       \<and> (map_of status k = Some v \<and> differs (attributes d) k v \<longrightarrow>
            map_of (staged d status) k = Some v)
       \<and> (calculate_get d = [] \<longrightarrow>
            staged (snd (parse_cloud_message ex d status upd)) status' = staged d status')"
proof (intro conjI impI)
  show "calculate_get d = [] \<Longrightarrow>
        staged (snd (parse_cloud_message ex d status upd)) status' = staged d status'"
    by (simp add: parse_cloud_message_def Let_def update_all_eq staged_def)
qed (simp_all add: map_of_staged[OF assms(1)] assms(2))

theorem default_seeding_witness:
  "distinct (map fst (default_values session_mode))
   \<and> map_of (default_values session_mode) ''mode'' = Some (VStr ''auto'')
   \<and> unset (attributes session_mode) ''mode''
   \<and> map_of [(''power'', VStr ''on'')] ''mode'' = None
   \<and> map_of (staged session_mode [(''power'', VStr ''on'')]) ''mode'' = Some (VStr ''auto'')
   \<and> \<not> unset (attributes session_on) ''mode''
   \<and> map_of (staged session_on [(''power'', VStr ''off'')]) ''mode'' = None
   \<and> differs (attributes session_mode) ''mode'' (VStr ''cool'')
   \<and> map_of (staged session_mode [(''mode'', VStr ''cool'')]) ''mode'' = Some (VStr ''cool'')
   \<and> calculate_get session_mode = []
   \<and> staged (snd (parse_cloud_message exec_ab session_mode [(''mode'', VStr ''cool'')] True))
        [(''power'', VStr ''on'')] = staged session_mode [(''power'', VStr ''on'')]"
  using default_seeding [of session_mode "''mode''" "VStr ''auto''" "[(''power'', VStr ''on'')]"]
        default_seeding [of session_on "''mode''" "VStr ''auto''" "[(''power'', VStr ''off'')]"]
        default_seeding [of session_mode "''mode''" "VStr ''auto''" "[(''mode'', VStr ''cool'')]"
                            "VStr ''cool''" exec_ab True "[(''power'', VStr ''on'')]"]
  by (simp add: example_defs unset_def differs_def)

text \<open>
  The claim as stated fails: \<open>mode\<close> is reported as \<open>cool\<close> by the first merge, and the
  second merge, of an unrelated status, stages the default \<open>auto\<close> for it again.
\<close>

theorem default_seeding_counterexample:
  "trace (snd (parse_cloud_message exec_ab
                 (snd (parse_cloud_message exec_ab session_mode [(''mode'', VStr ''cool'')] True))
                 [(''power'', VStr ''on'')] True)) =
     [Notify 7 [(''mode'', VStr ''cool'')],
      Notify 7 [(''mode'', VStr ''auto''), (''power'', VStr ''on'')]]"
  by (simp add: example_defs merge_defs Let_def)

subsection \<open>C10: the result of a merge\<close>

text \<open>
  C10. For every status, \<open>_parse_cloud_message\<close> returns \<open>SUCCESS\<close>, never \<open>ERROR\<close> or
  \<open>PADDING\<close>; so \<open>_send_message\<close> never takes the branch that compares the result with
  \<open>ERROR\<close>: the message of that branch is logged by no call.
\<close>

theorem parse_always_success:
  "fst (parse_cloud_message ex d status upd) = SUCCESS
   \<and> fst (parse_cloud_message ex d status upd) \<noteq> ERROR
   \<and> fst (parse_cloud_message ex d status upd) \<noteq> PADDING
   \<and> (DebugErrorReceived \<notin> set (trace d) \<longrightarrow>
        DebugErrorReceived \<notin> set (trace (snd (send_message ex d data))))"
proof -
  have r: "fst (parse_cloud_message ex d status upd) = SUCCESS"
    by (rule parse_result)
  have "DebugErrorReceived \<notin> set (trace (snd (send_message ex d data)))"
    if "DebugErrorReceived \<notin> set (trace d)"
    using that
    by (auto simp: send_message_def Let_def emit_def dest!: parse_False_dest
        split: option.splits sum.splits prod.splits if_splits)
  then show ?thesis
    using r by simp
qed

theorem parse_always_success_witness:
  "DebugErrorReceived \<notin> set (trace session_relay)
   \<and> fst (parse_cloud_message exec_ab session_relay [(''power'', VStr ''on'')] True) = SUCCESS
   \<and> trace (snd (send_message exec_ab session_relay [170, 85])) =
       [SendCloud [170, 85], DecodeStatus ''0102'']
   \<and> DebugErrorReceived \<notin> set (trace (snd (send_message exec_ab session_relay [170, 85])))"
  using parse_always_success [of exec_ab session_relay "[(''power'', VStr ''on'')]" True "[170, 85]"]
  by (simp add: example_defs merge_defs send_message_def Let_def)

subsection \<open>Configuration and trace along the operations\<close>

lemma evolves_refl: "evolves d d"
  by (simp add: evolves_def)

lemma evolves_trans: "evolves d d' \<Longrightarrow> evolves d' d'' \<Longrightarrow> evolves d d''"
  by (auto simp: evolves_def)

lemma evolves_emit: "evolves d d' \<Longrightarrow> evolves d (emit e d')"
  by (auto simp: evolves_def emit_def intro: prefix_order.trans)

lemma evolves_set_attr: "evolves d d' \<Longrightarrow> evolves d (set_attr k v d')"
  by (auto simp: evolves_def set_attr_def)

lemma evolves_parse: "evolves d (snd (parse_cloud_message ex d status upd))"
  by (simp add: parse_cloud_message_def Let_def update_all_eq evolves_def split: prod.splits)

lemma evolves_parse_dest:
  "parse_cloud_message ex d status upd = (r, d') \<Longrightarrow> evolves d d'"
  using evolves_parse [of d ex status upd] by simp

lemma evolves_send_message: "evolves d (snd (send_message ex d data))"
proof -
  have e: "evolves d (emit a d)" for a d
    by (rule evolves_emit [OF evolves_refl])
  show ?thesis
    by (auto simp: send_message_def Let_def split: option.splits sum.splits prod.splits
        dest!: evolves_parse_dest
        intro: e evolves_refl evolves_trans [OF e] evolves_trans [OF e evolves_trans [OF e]]
          evolves_emit evolves_trans)
qed

lemma evolves_build_send: "evolves d (snd (build_send ex d cmd))"
  by (simp add: build_send_def evolves_refl evolves_send_message split: sum.splits)

lemma evolves_build_send_dest: "build_send ex d cmd = (r, d') \<Longrightarrow> evolves d d'"
  using evolves_build_send [of d ex cmd] by simp

lemma evolves_query_local: "evolves d (snd (query_local ex d q))"
proof -
  have e: "evolves d (emit a d)" for a
    by (rule evolves_emit [OF evolves_refl])
  show ?thesis
    by (auto simp: query_local_def Let_def evolves_refl e
        split: option.splits sum.splits
        intro: evolves_trans [OF e evolves_build_send])
qed

lemma evolves_derive_query: "evolves d (snd (derive_query d q))"
  by (auto simp: derive_query_def Let_def evolves_refl split: query.splits
      intro: evolves_set_attr)

lemma evolves_refresh_query: "evolves d (snd (refresh_query ex d q))"
proof -
  obtain aq d0 where dq: "derive_query d q = (aq, d0)"
    by (cases "derive_query d q")
  have d0: "evolves d d0"
    using evolves_derive_query [of d q] dq by simp
  have e: "evolves d0 (emit a d0)" for a
    by (rule evolves_emit [OF evolves_refl])
  have "evolves d0 (snd (refresh_query ex d q))"
    unfolding refresh_query_def dq
    by (auto simp: Let_def evolves_refl e split: option.splits sum.splits
        intro: evolves_trans [OF e evolves_query_local] evolves_trans [OF e evolves_parse])
  with d0 show ?thesis
    by (rule evolves_trans)
qed

lemma evolves_refresh_loop: "evolves d (snd (refresh_loop ex d qs))"
proof (induction qs arbitrary: d)
  case Nil
  show ?case by (simp add: evolves_refl)
next
  case (Cons q qs)
  obtain r d' where rq: "refresh_query ex d q = (r, d')"
    by (cases "refresh_query ex d q")
  have d': "evolves d d'"
    using evolves_refresh_query [of d ex q] rq by simp
  show ?case
  proof (cases r)
    case (Inl e)
    with rq d' show ?thesis by simp
  next
    case (Inr u)
    with rq have "snd (refresh_loop ex d (q # qs)) = snd (refresh_loop ex d' qs)"
      by simp
    with d' Cons.IH [of d'] show ?thesis
      by (simp add: evolves_trans)
  qed
qed

lemma evolves_refresh_status: "evolves d (snd (refresh_status ex d))"
  by (simp add: refresh_status_def evolves_refresh_loop)

lemma evolves_cloud_control: "evolves d (snd (cloud_control d n))"
  by (auto simp: cloud_control_def Let_def evolves_refl split: option.splits sum.splits
      intro: evolves_emit)

lemma evolves_control_send: "evolves d (snd (control_send ex d n))"
proof -
  have e: "evolves d (emit a d)" for a
    by (rule evolves_emit [OF evolves_refl])
  show ?thesis
    by (auto simp: control_send_def Let_def evolves_cloud_control
        split: option.splits sum.splits prod.splits dest!: evolves_build_send_dest
        intro: evolves_trans [OF e evolves_cloud_control]
          evolves_trans [OF e evolves_trans [OF _ evolves_cloud_control]]
          evolves_trans [OF e])
qed

lemma refresh_loop_append:
  "refresh_loop ex d (xs @ ys) =
     (case refresh_loop ex d xs of
        (Inl e, d') \<Rightarrow> (Inl e, d')
      | (Inr u, d') \<Rightarrow> refresh_loop ex d' ys)"
  by (induction xs arbitrary: d) (auto split: prod.splits sum.splits)

lemma refresh_status_reaches:
  assumes "queries d = pre @ q # post" and "refresh_loop ex d pre = (Inr (), d1)"
  shows "prefix (trace (snd (refresh_query ex d1 q))) (trace (snd (refresh_status ex d)))"
proof -
  obtain res d3 where rq: "refresh_query ex d1 q = (res, d3)"
    by (cases "refresh_query ex d1 q")
  have "evolves d3 (snd (refresh_loop ex d1 (q # post)))"
    using rq evolves_refresh_loop [of d3 ex post]
    by (cases res) (simp_all add: evolves_refl)
  then have "prefix (trace d3) (trace (snd (refresh_loop ex d1 (q # post))))"
    by (simp add: evolves_def)
  moreover have "refresh_status ex d = refresh_loop ex d1 (q # post)"
    by (simp add: refresh_status_def assms refresh_loop_append)
  ultimately show ?thesis
    using rq by simp
qed


subsection \<open>What the operations can do to the store\<close>

lemma merges_trans:
  assumes "merges ex d' d''" and "merges ex d d'"
  shows "merges ex d d''"
  using assms by (induction rule: merges.induct) (auto intro: merges.intros)

lemma merges_emit1: "merges ex d (emit e d)"
  by (rule merges_emit [OF merges_refl])

lemma merges_parse1: "merges ex d (snd (parse_cloud_message ex d status upd))"
  by (rule merges_parse [OF merges_refl])

lemma merges_parse_dest: "parse_cloud_message ex d status upd = (r, d') \<Longrightarrow> merges ex d d'"
  using merges_parse1 [of ex d status upd] by simp

lemma merges_device_type: "merges ex d d' \<Longrightarrow> device_type d' = device_type d"
  by (induction rule: merges.induct)
     (simp_all add: emit_def parse_cloud_message_def Let_def update_all_eq split: prod.splits)

lemma merges_no_rule:
  "merges ex d d' \<Longrightarrow> calculate_get d = [] \<Longrightarrow>
   attributes d' = attributes d \<and> calculate_get d' = []"
  by (induction rule: merges.induct)
     (simp_all add: emit_def parse_cloud_message_def Let_def update_all_eq split: prod.splits)

lemma merges_send_message: "merges ex d (snd (send_message ex d data))"
proof -
  have m2: "merges ex d (emit b (emit a d))" for a b
    by (intro merges.intros)
  show ?thesis
    by (auto simp: send_message_def Let_def merges_refl merges_emit1 m2
        split: option.splits sum.splits prod.splits
        dest!: merges_parse_dest
        intro: merges_trans [OF _ m2] merges_emit [OF merges_trans [OF _ m2]])
qed

lemma merges_build_send: "merges ex d (snd (build_send ex d cmd))"
  by (simp add: build_send_def merges_refl merges_send_message split: sum.splits)

lemma merges_build_send_dest: "build_send ex d cmd = (r, d') \<Longrightarrow> merges ex d d'"
  using merges_build_send [of ex d cmd] by simp

lemma merges_query_local: "merges ex d (snd (query_local ex d q))"
  by (auto simp: query_local_def Let_def merges_refl merges_emit1
      split: option.splits sum.splits
      intro: merges_trans [OF merges_build_send merges_emit1])

lemma derive_query_other: "device_type d \<noteq> 0xD9 \<Longrightarrow> derive_query d q = (q, d)"
  by (simp add: derive_query_def split: query.splits)

lemma merges_refresh_query:
  "device_type d \<noteq> 0xD9 \<Longrightarrow> merges ex d (snd (refresh_query ex d q))"
  by (auto simp: refresh_query_def derive_query_other Let_def merges_refl merges_emit1
      split: option.splits sum.splits
      intro: merges_trans [OF merges_query_local merges_emit1]
        merges_trans [OF merges_parse1 merges_emit1])

lemma merges_refresh_loop:
  "device_type d \<noteq> 0xD9 \<Longrightarrow> merges ex d (snd (refresh_loop ex d qs))"
proof (induction qs arbitrary: d)
  case Nil
  show ?case by (simp add: merges_refl)
next
  case (Cons q qs)
  obtain r d' where rq: "refresh_query ex d q = (r, d')"
    by (cases "refresh_query ex d q")
  have d': "merges ex d d'"
    using merges_refresh_query [OF Cons.prems, of ex q] rq by simp
  show ?case
  proof (cases r)
    case (Inl e)
    with rq d' show ?thesis by simp
  next
    case (Inr u)
    have "device_type d' \<noteq> 0xD9"
      using merges_device_type [OF d'] Cons.prems by simp
    from Cons.IH [OF this] have "merges ex d' (snd (refresh_loop ex d' qs))" .
    then have "merges ex d (snd (refresh_loop ex d' qs))"
      using d' by (rule merges_trans)
    with rq Inr show ?thesis by simp
  qed
qed

lemma merges_cloud_control: "merges ex d (snd (cloud_control d n))"
  by (auto simp: cloud_control_def Let_def merges_refl merges_emit1
      split: option.splits sum.splits)

lemma merges_control_send: "merges ex d (snd (control_send ex d n))"
  by (auto simp: control_send_def Let_def merges_cloud_control
      split: option.splits sum.splits prod.splits dest!: merges_build_send_dest
      intro: merges_trans [OF merges_cloud_control merges_emit1]
        merges_trans [OF merges_cloud_control merges_trans [OF _ merges_emit1]]
        merges_trans [OF _ merges_emit1])

lemma set_attribute_status_other:
  "device_type d \<noteq> 0xD9 \<Longrightarrow>
   set_attribute_status ex d a v = (Inr (AList.update a v (centralized_status d)), d)"
  by (simp add: set_attribute_status_def)

lemma set_attributes_status_other:
  "device_type d \<noteq> 0xD9 \<Longrightarrow> set_attributes_status ex d attrs ns = (Inr ns, d)"
  by (simp add: set_attributes_status_def)

lemma merges_set_attribute:
  "device_type d \<noteq> 0xD9 \<Longrightarrow> merges ex d (snd (set_attribute ex d a v))"
  by (simp add: set_attribute_def set_attribute_status_other merges_refl merges_control_send
      split: sum.splits)

lemma merges_set_attributes:
  "device_type d \<noteq> 0xD9 \<Longrightarrow> merges ex d (snd (set_attributes ex d attrs))"
  by (simp add: set_attributes_def set_attributes_status_other merges_refl merges_control_send
      split: sum.splits prod.splits)

subsection \<open>C7: derived rules\<close>

lemma take_eq_prefix: "take (length sub) s = sub \<longleftrightarrow> prefix sub s"
  by (metis prefix_def append_take_drop_id append_eq_conv_conj)

lemma find_from_sublist:
  "0 \<le> i \<Longrightarrow> (0 \<le> find_from s sub i) = sublist sub s"
proof (induction s arbitrary: i)
  case Nil
  then show ?case by simp
next
  case (Cons c cs)
  have "0 \<le> i + 1" using Cons.prems by simp
  from Cons.IH [OF this] Cons.prems show ?case
    by (simp add: take_eq_prefix sublist_Cons_right del: take_Suc_Cons)
qed

lemma find_str_sublist: "(0 \<le> find_str s sub) = sublist sub s"
  by (simp add: find_str_def find_from_sublist)

lemma references_iff:
  "references r ns \<longleftrightarrow> (\<exists>s \<in> fst ` set ns. sublist (''['' @ s @ '']'') r)"
proof -
  have "references r ns \<longleftrightarrow> (\<exists>p \<in> set ns. sublist (''['' @ fst p @ '']'') r)"
    by (simp add: references_def find_str_sublist list_ex_iff case_prod_beta)
  then show ?thesis
    by simp
qed

lemma bracket_b: "sublist (''['' @ s @ '']'') ''[b]*2'' \<longleftrightarrow> s = ''b''"
  by (auto simp: sublist_def Cons_eq_append_conv append_eq_Cons_conv)

lemma references_b: "references ''[b]*2'' ns \<longleftrightarrow> map_of ns ''b'' \<noteq> None"
proof -
  have "references ''[b]*2'' ns \<longleftrightarrow> (\<exists>s \<in> fst ` set ns. s = ''b'')"
    unfolding references_iff bracket_b ..
  then show ?thesis
    by (simp add: map_of_eq_None_iff)
qed

lemma str1_ab: "calculate_str1 ''[a]'' ''[b]*2'' = stmt1_ab"
  by (simp add: calculate_str1_def stmt1_ab_def replace_str_def dq_def)

lemma str2_ab: "calculate_str2 ''[a]'' ''[b]*2'' = stmt2_ab"
  by (simp add: calculate_str2_def stmt2_ab_def replace_str_def dq_def)

lemma stmt_ab_distinct: "stmt2_ab \<noteq> stmt1_ab"
  by (simp add: stmt1_ab_def stmt2_ab_def)

lemma calculate_fold: "calculate ex cs st = fold (calculate_rule ex) cs st"
  by (induction cs arbitrary: st) simp_all

lemma str1_sum: "calculate_str1 ''[t]'' ''[a]+[c]'' = stmt1_sum"
  by (simp add: calculate_str1_def stmt1_sum_def replace_str_def dq_def)

lemma str2_sum: "calculate_str2 ''[t]'' ''[a]+[c]'' = stmt2_sum"
  by (simp add: calculate_str2_def stmt2_sum_def replace_str_def dq_def)

lemma stmt_sum_distinct: "stmt2_sum \<noteq> stmt1_sum"
  by (simp add: stmt1_sum_def stmt2_sum_def)

lemma references_sum_a: "map_of ns ''a'' = Some v \<Longrightarrow> references ''[a]+[c]'' ns"
proof -
  assume "map_of ns ''a'' = Some v"
  then have "(''a'', v) \<in> set ns"
    by (rule map_of_SomeD)
  moreover have "0 \<le> find_str ''[a]+[c]'' (''['' @ ''a'' @ '']'')"
    by (simp add: find_str_def)
  ultimately show ?thesis
    unfolding references_def list_ex_iff by (intro bexI [of _ "(''a'', v)"]) simp_all
qed

lemma rule_sum_needs_c:
  "map_of ns ''c'' = None \<Longrightarrow> snd (calculate_rule exec_sum rule_sum (attrs, ns)) = ns"
  by (simp add: calculate_rule_def rule_sum_def str1_sum str2_sum exec_sum_def assign_sum_def
      stmt_sum_distinct split: option.splits sum.splits prod.splits)

lemma rule_sum_stages:
  assumes "map_of ns ''a'' = Some (VInt i)" and "map_of ns ''c'' = Some (VInt j)"
  shows "snd (calculate_rule exec_sum rule_sum (attrs, ns)) = AList.update ''t'' (VInt (i + j)) ns"
  using assms references_sum_a [OF assms(1)]
  by (simp add: calculate_rule_def rule_sum_def str1_sum str2_sum exec_sum_def assign_sum_def
      stmt_sum_distinct py_add_def py_int_def split: option.splits sum.splits prod.splits)

text \<open>
  C7, as the code has it. In a merge cycle whose staged delta is not empty, the
  configured rules are evaluated one after the other, each on the store and the delta
  as the rules before it left them. A rule with a non-empty lvalue and rvalue is
  evaluated if and only if the text of its rvalue contains \<open>[s]\<close> for some key \<open>s\<close> of the
  delta (attributes are referenced as bracketed paths). Its first assignment is then run
  on the store alone and its second on the delta alone, not on the store overlaid by the
  delta; an assignment that raises stages nothing. So with lvalue \<open>[a]\<close> and rvalue
  \<open>[b]*2\<close>, a merge whose delta holds the integer \<open>n\<close> for \<open>b\<close> stages \<open>a = 2n\<close> and a
  merge whose delta has no \<open>b\<close> touches \<open>a\<close> neither in the delta nor in the store; and
  with lvalue \<open>[t]\<close> and rvalue \<open>[a]+[c]\<close>, the rule stages \<open>t\<close> when the delta holds
  both \<open>a\<close> and \<open>c\<close>, and stages nothing when \<open>c\<close> is not in the delta, whatever the
  store holds.
\<close>

theorem derived_rule_fires:
  "calculate ex cs st = fold (calculate_rule ex) cs st
   \<and> (staged d status \<noteq> [] \<longrightarrow>
        trace (snd (parse_cloud_message ex d status True)) =
          trace d @
          map (\<lambda>u. Notify u
                 (snd (fold (calculate_rule ex) (calculate_get d) (attributes d, staged d status))))
            (updates d)
        \<and> attributes (snd (parse_cloud_message ex d status True)) =
            fst (fold (calculate_rule ex) (calculate_get d) (attributes d, staged d status)))
   \<and> (lvalue c = Some l \<and> rvalue c = Some r \<and> l \<noteq> [] \<and> r \<noteq> [] \<longrightarrow>
      calculate_rule ex c (attrs, ns) =
        (if \<exists>s \<in> fst ` set ns. sublist (''['' @ s @ '']'') r
         then snd (ex (calculate_str2 l r) (snd (ex (calculate_str1 l r) (attrs, ns))))
         else (attrs, ns)))
   \<and> (map_of ns ''b'' = Some (VInt n) \<longrightarrow>
        snd (calculate_rule exec_ab rule_ab (attrs, ns)) = AList.update ''a'' (VInt (n * 2)) ns
        \<and> fst (calculate_rule exec_ab rule_ab (attrs, ns)) =
            (case map_of attrs ''b'' of
               None \<Rightarrow> attrs
             | Some w \<Rightarrow> (case py_mul2 w of Inl e \<Rightarrow> attrs | Inr x \<Rightarrow> AList.update ''a'' x attrs)))
   \<and> (map_of ns ''b'' = None \<longrightarrow> calculate_rule exec_ab rule_ab (attrs, ns) = (attrs, ns))
   \<and> (map_of ns ''c'' = None \<longrightarrow> snd (calculate_rule exec_sum rule_sum (attrs, ns)) = ns)
   \<and> (map_of ns ''a'' = Some (VInt i) \<and> map_of ns ''c'' = Some (VInt j) \<longrightarrow>
        snd (calculate_rule exec_sum rule_sum (attrs, ns)) = AList.update ''t'' (VInt (i + j)) ns)"
proof (intro conjI impI)
  show "calculate ex cs st = fold (calculate_rule ex) cs st"
    by (rule calculate_fold)
next
  assume s: "staged d status \<noteq> []"
  then show "trace (snd (parse_cloud_message ex d status True)) =
          trace d @
          map (\<lambda>u. Notify u
                 (snd (fold (calculate_rule ex) (calculate_get d) (attributes d, staged d status))))
            (updates d)"
    by (simp add: parse_cloud_message_def Let_def update_all_eq calculate_fold split: prod.splits)
  from s show "attributes (snd (parse_cloud_message ex d status True)) =
            fst (fold (calculate_rule ex) (calculate_get d) (attributes d, staged d status))"
    by (simp add: parse_cloud_message_def Let_def update_all_eq calculate_fold split: prod.splits)
next
  assume "lvalue c = Some l \<and> rvalue c = Some r \<and> l \<noteq> [] \<and> r \<noteq> []"
  then show "calculate_rule ex c (attrs, ns) =
        (if \<exists>s \<in> fst ` set ns. sublist (''['' @ s @ '']'') r
         then snd (ex (calculate_str2 l r) (snd (ex (calculate_str1 l r) (attrs, ns))))
         else (attrs, ns))"
    by (simp add: calculate_rule_def references_iff split: prod.splits)
next
  assume b: "map_of ns ''b'' = Some (VInt n)"
  then have r: "references ''[b]*2'' ns"
    by (simp add: references_b)
  show "snd (calculate_rule exec_ab rule_ab (attrs, ns)) = AList.update ''a'' (VInt (n * 2)) ns"
    using r b
    by (simp add: calculate_rule_def rule_ab_def str1_ab str2_ab exec_ab_def stmt_ab_distinct
        py_mul2_def split: option.splits sum.splits val.splits)
  show "fst (calculate_rule exec_ab rule_ab (attrs, ns)) =
            (case map_of attrs ''b'' of
               None \<Rightarrow> attrs
             | Some w \<Rightarrow> (case py_mul2 w of Inl e \<Rightarrow> attrs | Inr x \<Rightarrow> AList.update ''a'' x attrs))"
    using r b
    by (simp add: calculate_rule_def rule_ab_def str1_ab str2_ab exec_ab_def stmt_ab_distinct
        py_mul2_def split: option.splits sum.splits val.splits)
next
  assume "map_of ns ''b'' = None"
  then have "\<not> references ''[b]*2'' ns"
    by (simp add: references_b)
  then show "calculate_rule exec_ab rule_ab (attrs, ns) = (attrs, ns)"
    by (simp add: calculate_rule_def rule_ab_def)
next
  assume "map_of ns ''c'' = None"
  then show "snd (calculate_rule exec_sum rule_sum (attrs, ns)) = ns"
    by (rule rule_sum_needs_c)
next
  assume "map_of ns ''a'' = Some (VInt i) \<and> map_of ns ''c'' = Some (VInt j)"
  then show "snd (calculate_rule exec_sum rule_sum (attrs, ns)) =
      AList.update ''t'' (VInt (i + j)) ns"
    by (intro rule_sum_stages) simp_all
qed

lemma stmt_sum_ab: "stmt1_ab \<noteq> stmt1_sum" "stmt1_ab \<noteq> stmt2_sum" "stmt2_ab \<noteq> stmt1_sum"
  "stmt2_ab \<noteq> stmt2_sum"
  by (simp_all add: stmt1_ab_def stmt2_ab_def stmt1_sum_def stmt2_sum_def)

theorem derived_rule_fires_witness:
  "lvalue rule_ab = Some ''[a]'' \<and> rvalue rule_ab = Some ''[b]*2''
   \<and> map_of [(''b'', VInt 3)] ''b'' = Some (VInt 3)
   \<and> calculate_rule exec_ab rule_ab ([(''b'', VInt 5)], [(''b'', VInt 3)]) =
       ([(''b'', VInt 5), (''a'', VInt 10)], [(''b'', VInt 3), (''a'', VInt 6)])
   \<and> map_of [(''c'', VInt 1)] ''b'' = None
   \<and> calculate_rule exec_ab rule_ab ([(''b'', VInt 5)], [(''c'', VInt 1)]) =
       ([(''b'', VInt 5)], [(''c'', VInt 1)])
   \<and> trace (snd (parse_cloud_message exec_ab (session_rule rule_ab) [(''b'', VInt 3)] True)) =
       [Notify 7 [(''b'', VInt 3), (''a'', VInt 6)]]
   \<and> trace (snd (parse_cloud_message exec_ab (session_rule rule_ab) [(''c'', VInt 1)] True)) =
       [Notify 7 [(''c'', VInt 1)]]
   \<and> calculate_get session_chain = [rule_ab, rule_sum]
   \<and> staged session_chain [(''b'', VInt 3), (''c'', VInt 10)] =
       [(''b'', VInt 3), (''c'', VInt 10)]
   \<and> trace (snd (parse_cloud_message exec_sum session_chain
                    [(''b'', VInt 3), (''c'', VInt 10)] True)) =
       [Notify 7 [(''b'', VInt 3), (''c'', VInt 10), (''a'', VInt 6), (''t'', VInt 16)]]
   \<and> snd (calculate_rule exec_sum rule_sum ([(''c'', VInt 10)], [(''a'', VInt 3)])) =
       [(''a'', VInt 3)]"
proof -
  have 1: "calculate_rule exec_ab rule_ab ([(''b'', VInt 5)], [(''b'', VInt 3)]) =
       ([(''b'', VInt 5), (''a'', VInt 10)], [(''b'', VInt 3), (''a'', VInt 6)])"
    using derived_rule_fires [where ns = "[(''b'', VInt 3)]" and n = 3
        and attrs = "[(''b'', VInt 5)]"]
    by (simp add: prod_eq_iff py_mul2_def)
  have 2: "calculate_rule exec_ab rule_ab ([(''b'', VInt 5)], [(''c'', VInt 1)]) =
       ([(''b'', VInt 5)], [(''c'', VInt 1)])"
    using derived_rule_fires [where ns = "[(''c'', VInt 1)]" and attrs = "[(''b'', VInt 5)]"]
    by simp
  have 3: "calculate_rule exec_ab rule_ab ([], [(''b'', VInt 3)]) =
       ([], [(''b'', VInt 3), (''a'', VInt 6)])"
    using derived_rule_fires [where ns = "[(''b'', VInt 3)]" and n = 3 and attrs = "[]"]
    by (simp add: prod_eq_iff)
  have 4: "calculate_rule exec_ab rule_ab ([], [(''c'', VInt 1)]) = ([], [(''c'', VInt 1)])"
    using derived_rule_fires [where ns = "[(''c'', VInt 1)]" and attrs = "[]"]
    by simp
  have 5: "lvalue rule_ab = Some ''[a]'' \<and> rvalue rule_ab = Some ''[b]*2''"
    by (simp add: rule_ab_def)
  have g: "calculate_get session_chain = [rule_ab, rule_sum]" "updates session_chain = [7]"
    "trace session_chain = []" "attributes session_chain = []"
    by (simp_all add: session_chain_def session_ac_def bare_def)
  have s: "staged session_chain [(''b'', VInt 3), (''c'', VInt 10)] =
       [(''b'', VInt 3), (''c'', VInt 10)]"
    by (simp add: session_chain_def session_ac_def bare_def staged_def differs_def dict_get_def)
  have f: "fold (calculate_rule exec_sum) [rule_ab, rule_sum]
             ([], [(''b'', VInt 3), (''c'', VInt 10)]) =
           ([], [(''b'', VInt 3), (''c'', VInt 10), (''a'', VInt 6), (''t'', VInt 16)])"
    by (simp add: calculate_rule_def rule_ab_def rule_sum_def str1_ab str2_ab str1_sum str2_sum
        exec_sum_def exec_ab_def assign_sum_def stmt_sum_distinct stmt_ab_distinct stmt_sum_ab
        py_add_def py_int_def py_mul2_def references_def find_str_def)
  have 6: "trace (snd (parse_cloud_message exec_sum session_chain
                    [(''b'', VInt 3), (''c'', VInt 10)] True)) =
       [Notify 7 [(''b'', VInt 3), (''c'', VInt 10), (''a'', VInt 6), (''t'', VInt 16)]]"
  proof -
    have ne: "staged session_chain [(''b'', VInt 3), (''c'', VInt 10)] \<noteq> []"
      by (simp add: s)
    from derived_rule_fires [where ex = exec_sum and d = session_chain
        and status = "[(''b'', VInt 3), (''c'', VInt 10)]"] ne
    have "trace (snd (parse_cloud_message exec_sum session_chain
                    [(''b'', VInt 3), (''c'', VInt 10)] True)) =
          trace session_chain @
          map (\<lambda>u. Notify u
                 (snd (fold (calculate_rule exec_sum) (calculate_get session_chain)
                    (attributes session_chain,
                     staged session_chain [(''b'', VInt 3), (''c'', VInt 10)]))))
            (updates session_chain)"
      by blast
    then show ?thesis
      unfolding g s f by simp
  qed
  have 7: "snd (calculate_rule exec_sum rule_sum ([(''c'', VInt 10)], [(''a'', VInt 3)])) =
       [(''a'', VInt 3)]"
    using derived_rule_fires [where ns = "[(''a'', VInt 3)]" and attrs = "[(''c'', VInt 10)]"]
    by simp
  show ?thesis
    using 1 2 5 g(1) s 6 7
    by (simp add: 3 4 bare_def session_ac_def session_rule_def merge_defs Let_def)
qed

text \<open>
  The claim as stated fails: the rule \<open>[t] = [a]+[c]\<close> references \<open>a\<close>, the delta
  contains \<open>a\<close> and the store holds \<open>c = 10\<close>, so against the store overlaid by the delta
  \<open>t\<close> would be 13; the merge stages no \<open>t\<close> and writes none to the store.
\<close>

theorem derived_rule_delta_counterexample:
  "calculate_get session_sum = [rule_sum]
   \<and> map_of (attributes session_sum) ''c'' = Some (VInt 10)
   \<and> references ''[a]+[c]'' (staged session_sum [(''a'', VInt 3)])
   \<and> trace (snd (parse_cloud_message exec_sum session_sum [(''a'', VInt 3)] True)) =
       [Notify 7 [(''a'', VInt 3)]]
   \<and> attributes (snd (parse_cloud_message exec_sum session_sum [(''a'', VInt 3)] True)) =
       [(''c'', VInt 10)]
   \<and> py_add (VInt 3) (VInt 10) = Inr (VInt 13)"
  by (simp add: session_sum_def bare_def merge_defs Let_def calculate_rule_def rule_sum_def
      str1_sum str2_sum exec_sum_def assign_sum_def stmt_sum_distinct references_def
      find_str_def py_add_def py_int_def)

subsection \<open>C9: the query of a dual-chamber appliance\<close>

lemma derive_query_trace: "trace (snd (derive_query d q)) = trace d"
  by (auto simp: derive_query_def Let_def set_attr_def split: query.splits)

lemma refresh_query_calls_relay:
  assumes "cloud d = Some c" and "has_get_device_status c"
    and "cloud_class c = MSmartHomeCloud \<or> cloud_class c = MeijuCloud"
  shows "prefix (trace d @ [GetDeviceStatus (fst (derive_query d q))])
           (trace (snd (refresh_query ex d q)))"
proof -
  obtain aq d0 where dq: "derive_query d q = (aq, d0)"
    by (cases "derive_query d q")
  have d0: "evolves d d0" and t0: "trace d0 = trace d"
    using evolves_derive_query [of d q] derive_query_trace [of d q] dq by simp_all
  from d0 assms(1) have c0: "cloud d0 = Some c"
    by (simp add: evolves_def)
  let ?d1 = "emit (GetDeviceStatus aq) d0"
  have "evolves ?d1 (snd (refresh_query ex d q))"
    unfolding refresh_query_def dq using c0 assms(2,3)
    by (auto simp: Let_def evolves_refl evolves_query_local evolves_parse split: sum.splits option.splits)
  then have "prefix (trace ?d1) (trace (snd (refresh_query ex d q)))"
    by (simp add: evolves_def)
  then show ?thesis
    by (simp add: emit_def t0 dq)
qed

lemma merges_refresh_query_from:
  "merges ex (snd (derive_query d q)) (snd (refresh_query ex d q))"
proof -
  obtain aq d0 where dq: "derive_query d q = (aq, d0)"
    by (cases "derive_query d q")
  show ?thesis
    unfolding refresh_query_def dq
    by (auto simp: Let_def merges_refl merges_emit1
        split: option.splits sum.splits
        intro: merges_trans [OF merges_query_local merges_emit1]
          merges_trans [OF merges_parse1 merges_emit1])
qed

lemma refresh_query_no_rule:
  assumes "calculate_get d = []"
  shows "attributes (snd (refresh_query ex d q)) = attributes (snd (derive_query d q))"
proof -
  have "calculate_get (snd (derive_query d q)) = []"
    using evolves_derive_query [of d q] assms by (simp add: evolves_def)
  from merges_no_rule [OF merges_refresh_query_from this] show ?thesis
    by simp
qed

lemma derive_query_flip:
  assumes "device_type d = 0xD9"
    and "map_of (attributes d) ''db_position'' = Some (VInt 0)"
    and "map_of (attributes d) ''db_location'' = Some (VInt 1)"
  shows "derive_query d (QDict q) =
           (QDict (AList.update ''db_location'' (VInt 2) q),
            set_attr ''db_location_selection'' (VStr ''right'') d)"
    and "derive_query d (QOther x) = (QOther x, d)"
  using assms by (simp_all add: derive_query_def dict_get_def Let_def)

lemma derive_query_keep:
  assumes "device_type d = 0xD9"
    and "map_of (attributes d) ''db_position'' = Some (VInt 1)"
    and "map_of (attributes d) ''db_location'' = Some loc"
  shows "derive_query d (QDict q) = (QDict (AList.update ''db_location'' loc q), d)"
  using assms by (simp add: derive_query_def dict_get_def Let_def)

lemma derive_query_keep_store:
  assumes "device_type d = 0xD9"
    and "map_of (attributes d) ''db_position'' = Some (VInt 1)"
  shows "snd (derive_query d q) = d"
  using assms by (simp add: derive_query_def dict_get_def Let_def split: query.splits)

lemma refresh_loop_flip:
  assumes "device_type d = 0xD9" and "calculate_get d = []"
    and "map_of (attributes d) ''db_position'' = Some (VInt 0)"
    and "map_of (attributes d) ''db_location'' = Some (VInt 1)"
  shows "attributes (snd (refresh_loop ex d qs)) = attributes d \<or>
         attributes (snd (refresh_loop ex d qs)) = label_right (attributes d)"
  using assms
proof (induction qs arbitrary: d)
  case Nil
  show ?case by simp
next
  case (Cons q qs)
  obtain r d' where rq: "refresh_query ex d q = (r, d')"
    by (cases "refresh_query ex d q")
  have ev: "evolves d d'"
    using evolves_refresh_query [of d ex q] rq by simp
  have a: "attributes d' = attributes (snd (derive_query d q))"
    using refresh_query_no_rule [OF Cons.prems(2), of ex q] rq by simp
  have a': "attributes d' = attributes d \<or> attributes d' = label_right (attributes d)"
    using a derive_query_flip [OF Cons.prems(1,3,4)]
    by (cases q) (simp_all add: set_attr_def label_right_def)
  show ?case
  proof (cases r)
    case (Inl e)
    with rq a' show ?thesis by simp
  next
    case (Inr u)
    have p: "device_type d' = 0xD9" "calculate_get d' = []"
      using ev Cons.prems(1,2) by (simp_all add: evolves_def)
    have m: "map_of (attributes d') ''db_position'' = Some (VInt 0)"
      "map_of (attributes d') ''db_location'' = Some (VInt 1)"
      using a' Cons.prems(3,4) by (auto simp: label_right_def update_conv')
    from Cons.IH [OF p m] a' rq Inr show ?thesis
      by (auto simp: label_right_def)
  qed
qed

lemma refresh_status_flip:
  assumes "device_type d = 0xD9" and "calculate_get d = []"
    and "map_of (attributes d) ''db_position'' = Some (VInt 0)"
    and "map_of (attributes d) ''db_location'' = Some (VInt 1)"
    and "queries d = QDict q # rest"
  shows "attributes (snd (refresh_status ex d)) = label_right (attributes d)"
proof -
  obtain r d' where rq: "refresh_query ex d (QDict q) = (r, d')"
    by (cases "refresh_query ex d (QDict q)")
  have ev: "evolves d d'"
    using evolves_refresh_query [of d ex "QDict q"] rq by simp
  have a: "attributes d' = label_right (attributes d)"
    using refresh_query_no_rule [OF assms(2), of ex "QDict q"] rq
      derive_query_flip(1) [OF assms(1,3,4), of q]
    by (simp add: set_attr_def label_right_def)
  show ?thesis
  proof (cases r)
    case (Inl e)
    with rq a show ?thesis by (simp add: refresh_status_def assms(5))
  next
    case (Inr u)
    have p: "device_type d' = 0xD9" "calculate_get d' = []"
      using ev assms(1,2) by (simp_all add: evolves_def)
    have m: "map_of (attributes d') ''db_position'' = Some (VInt 0)"
      "map_of (attributes d') ''db_location'' = Some (VInt 1)"
      using a assms(3,4) by (auto simp: label_right_def update_conv')
    from refresh_loop_flip [OF p m, of ex rest] a rq Inr show ?thesis
      by (auto simp: label_right_def refresh_status_def assms(5))
  qed
qed

lemma refresh_loop_keep:
  assumes "device_type d = 0xD9" and "calculate_get d = []"
    and "map_of (attributes d) ''db_position'' = Some (VInt 1)"
  shows "attributes (snd (refresh_loop ex d qs)) = attributes d"
  using assms
proof (induction qs arbitrary: d)
  case Nil
  show ?case by simp
next
  case (Cons q qs)
  obtain r d' where rq: "refresh_query ex d q = (r, d')"
    by (cases "refresh_query ex d q")
  have ev: "evolves d d'"
    using evolves_refresh_query [of d ex q] rq by simp
  have a: "attributes d' = attributes d"
    using refresh_query_no_rule [OF Cons.prems(2), of ex q] rq
      derive_query_keep_store [OF Cons.prems(1,3), of q]
    by simp
  show ?case
  proof (cases r)
    case (Inl e)
    with rq a show ?thesis by simp
  next
    case (Inr u)
    have p: "device_type d' = 0xD9" "calculate_get d' = []"
      "map_of (attributes d') ''db_position'' = Some (VInt 1)"
      using ev Cons.prems a by (simp_all add: evolves_def)
    from Cons.IH [OF p] a rq Inr show ?thesis
      by simp
  qed
qed

lemma refresh_status_asks:
  assumes "queries d = pre @ q # post" and "refresh_loop ex d pre = (Inr (), d1)"
    and "cloud d = Some c" and "has_get_device_status c"
    and "cloud_class c = MSmartHomeCloud \<or> cloud_class c = MeijuCloud"
  shows "prefix (trace d1 @ [GetDeviceStatus (fst (derive_query d1 q))])
           (trace (snd (refresh_status ex d)))"
proof -
  have "evolves d d1"
    using evolves_refresh_loop [of d ex pre] assms(2) by simp
  then have c1: "cloud d1 = Some c"
    using assms(3) by (simp add: evolves_def)
  from refresh_query_calls_relay [OF c1 assms(4,5), of q ex]
    refresh_status_reaches [OF assms(1,2)]
  show ?thesis
    by (rule prefix_order.trans)
qed

text \<open>
  C9. On a device of type 0xD9, for a configured query that is a dictionary and that the
  loop of \<open>refresh_status\<close> reaches: when the store then holds \<open>db_position = 0\<close> and
  \<open>db_location = 1\<close>, the relay is asked with the query carrying \<open>db_location = 2\<close>, and
  \<open>db_location_selection\<close> is set to \<open>right\<close> in the store; when the store holds
  \<open>db_position = 1\<close>, the relay is asked with the query carrying the stored
  \<open>db_location\<close>, and the derivation writes nothing. With no rule configured, the store
  after the whole refresh is the old one with the label \<open>right\<close> in the first case and
  the old one in the second.
\<close>

theorem dual_chamber_query:
  assumes "device_type d = 0xD9"
  shows "(map_of (attributes d) ''db_position'' = Some (VInt 0) \<and>
          map_of (attributes d) ''db_location'' = Some (VInt 1) \<longrightarrow>
            derive_query d (QDict q) =
              (QDict (AList.update ''db_location'' (VInt 2) q),
               set_attr ''db_location_selection'' (VStr ''right'') d))
       \<and> (map_of (attributes d) ''db_position'' = Some (VInt 1) \<and>
          map_of (attributes d) ''db_location'' = Some loc \<longrightarrow>
            derive_query d (QDict q) = (QDict (AList.update ''db_location'' loc q), d))
       \<and> (cloud d = Some c \<and> has_get_device_status c \<and>
          (cloud_class c = MSmartHomeCloud \<or> cloud_class c = MeijuCloud) \<longrightarrow>
            prefix (trace d @ [GetDeviceStatus (fst (derive_query d (QDict q)))])
              (trace (snd (refresh_query ex d (QDict q)))))
       \<and> (queries d = pre @ QDict q # post \<and> refresh_loop ex d pre = (Inr (), d1) \<and>
          map_of (attributes d1) ''db_position'' = Some (VInt 0) \<and>
          map_of (attributes d1) ''db_location'' = Some (VInt 1) \<and>
          cloud d = Some c \<and> has_get_device_status c \<and>
          (cloud_class c = MSmartHomeCloud \<or> cloud_class c = MeijuCloud) \<longrightarrow>
            prefix (trace d1 @ [GetDeviceStatus (QDict (AList.update ''db_location'' (VInt 2) q))])
              (trace (snd (refresh_status ex d))))
       \<and> (queries d = pre @ QDict q # post \<and> refresh_loop ex d pre = (Inr (), d1) \<and>
          map_of (attributes d1) ''db_position'' = Some (VInt 1) \<and>
          map_of (attributes d1) ''db_location'' = Some loc \<and>
          cloud d = Some c \<and> has_get_device_status c \<and>
          (cloud_class c = MSmartHomeCloud \<or> cloud_class c = MeijuCloud) \<longrightarrow>
            prefix (trace d1 @ [GetDeviceStatus (QDict (AList.update ''db_location'' loc q))])
              (trace (snd (refresh_status ex d))))
       \<and> (calculate_get d = [] \<and> queries d = QDict q # rest \<and>
          map_of (attributes d) ''db_position'' = Some (VInt 0) \<and>
          map_of (attributes d) ''db_location'' = Some (VInt 1) \<longrightarrow>
            attributes (snd (refresh_status ex d)) = label_right (attributes d))
       \<and> (calculate_get d = [] \<and> map_of (attributes d) ''db_position'' = Some (VInt 1) \<longrightarrow>
            attributes (snd (refresh_status ex d)) = attributes d)"
proof (intro conjI impI)
  assume "map_of (attributes d) ''db_position'' = Some (VInt 0) \<and>
          map_of (attributes d) ''db_location'' = Some (VInt 1)"
  then show "derive_query d (QDict q) =
              (QDict (AList.update ''db_location'' (VInt 2) q),
               set_attr ''db_location_selection'' (VStr ''right'') d)"
    using assms by (intro derive_query_flip) simp_all
next
  assume "map_of (attributes d) ''db_position'' = Some (VInt 1) \<and>
          map_of (attributes d) ''db_location'' = Some loc"
  then show "derive_query d (QDict q) = (QDict (AList.update ''db_location'' loc q), d)"
    using assms by (intro derive_query_keep) simp_all
next
  assume "cloud d = Some c \<and> has_get_device_status c \<and>
          (cloud_class c = MSmartHomeCloud \<or> cloud_class c = MeijuCloud)"
  then show "prefix (trace d @ [GetDeviceStatus (fst (derive_query d (QDict q)))])
              (trace (snd (refresh_query ex d (QDict q))))"
    by (intro refresh_query_calls_relay [of d c]) simp_all
next
  assume h: "queries d = pre @ QDict q # post \<and> refresh_loop ex d pre = (Inr (), d1) \<and>
          map_of (attributes d1) ''db_position'' = Some (VInt 0) \<and>
          map_of (attributes d1) ''db_location'' = Some (VInt 1) \<and>
          cloud d = Some c \<and> has_get_device_status c \<and>
          (cloud_class c = MSmartHomeCloud \<or> cloud_class c = MeijuCloud)"
  have "evolves d d1"
    using evolves_refresh_loop [of d ex pre] h by simp
  then have t1: "device_type d1 = 0xD9"
    using assms by (simp add: evolves_def)
  have "fst (derive_query d1 (QDict q)) = QDict (AList.update ''db_location'' (VInt 2) q)"
    using derive_query_flip(1) [OF t1, of q] h by simp
  moreover have "prefix (trace d1 @ [GetDeviceStatus (fst (derive_query d1 (QDict q)))])
           (trace (snd (refresh_status ex d)))"
    using h by (intro refresh_status_asks [of d pre _ post ex d1 c]) simp_all
  ultimately show "prefix (trace d1 @ [GetDeviceStatus (QDict (AList.update ''db_location'' (VInt 2) q))])
              (trace (snd (refresh_status ex d)))"
    by simp
next
  assume h: "queries d = pre @ QDict q # post \<and> refresh_loop ex d pre = (Inr (), d1) \<and>
          map_of (attributes d1) ''db_position'' = Some (VInt 1) \<and>
          map_of (attributes d1) ''db_location'' = Some loc \<and>
          cloud d = Some c \<and> has_get_device_status c \<and>
          (cloud_class c = MSmartHomeCloud \<or> cloud_class c = MeijuCloud)"
  have "evolves d d1"
    using evolves_refresh_loop [of d ex pre] h by simp
  then have t1: "device_type d1 = 0xD9"
    using assms by (simp add: evolves_def)
  have "fst (derive_query d1 (QDict q)) = QDict (AList.update ''db_location'' loc q)"
    using derive_query_keep [OF t1, of loc q] h by simp
  moreover have "prefix (trace d1 @ [GetDeviceStatus (fst (derive_query d1 (QDict q)))])
           (trace (snd (refresh_status ex d)))"
    using h by (intro refresh_status_asks [of d pre _ post ex d1 c]) simp_all
  ultimately show "prefix (trace d1 @ [GetDeviceStatus (QDict (AList.update ''db_location'' loc q))])
              (trace (snd (refresh_status ex d)))"
    by simp
next
  assume "calculate_get d = [] \<and> queries d = QDict q # rest \<and>
          map_of (attributes d) ''db_position'' = Some (VInt 0) \<and>
          map_of (attributes d) ''db_location'' = Some (VInt 1)"
  then show "attributes (snd (refresh_status ex d)) = label_right (attributes d)"
    using assms by (intro refresh_status_flip [of d q rest]) simp_all
next
  assume "calculate_get d = [] \<and> map_of (attributes d) ''db_position'' = Some (VInt 1)"
  then show "attributes (snd (refresh_status ex d)) = attributes d"
    using assms unfolding refresh_status_def by (intro refresh_loop_keep) simp_all
qed

theorem dual_chamber_query_witness:
  "device_type (session_d9\<lparr>cloud := Some relay\<rparr>) = 0xD9
   \<and> calculate_get (session_d9\<lparr>cloud := Some relay\<rparr>) = []
   \<and> queries (session_d9\<lparr>cloud := Some relay\<rparr>) = [] @ QDict [] # []
   \<and> refresh_loop exec_ab (session_d9\<lparr>cloud := Some relay\<rparr>) [] =
       (Inr (), session_d9\<lparr>cloud := Some relay\<rparr>)
   \<and> map_of (attributes (session_d9\<lparr>cloud := Some relay\<rparr>)) ''db_position'' = Some (VInt 0)
   \<and> map_of (attributes (session_d9\<lparr>cloud := Some relay\<rparr>)) ''db_location'' = Some (VInt 1)
   \<and> cloud (session_d9\<lparr>cloud := Some relay\<rparr>) = Some relay
   \<and> has_get_device_status relay \<and> cloud_class relay = MeijuCloud
   \<and> prefix [GetDeviceStatus (QDict [(''db_location'', VInt 2)])]
       (trace (snd (refresh_status exec_ab (session_d9\<lparr>cloud := Some relay\<rparr>))))
   \<and> attributes (snd (refresh_status exec_ab (session_d9\<lparr>cloud := Some relay\<rparr>))) =
       [(''db_position'', VInt 0), (''db_location'', VInt 1),
        (''db_location_selection'', VStr ''right'')]
   \<and> device_type (session_d9_kept\<lparr>cloud := Some relay\<rparr>) = 0xD9
   \<and> map_of (attributes (session_d9_kept\<lparr>cloud := Some relay\<rparr>)) ''db_position'' = Some (VInt 1)
   \<and> map_of (attributes (session_d9_kept\<lparr>cloud := Some relay\<rparr>)) ''db_location'' = Some (VInt 2)
   \<and> prefix [GetDeviceStatus (QDict [(''db_location'', VInt 2)])]
       (trace (snd (refresh_status exec_ab (session_d9_kept\<lparr>cloud := Some relay\<rparr>))))
   \<and> attributes (snd (refresh_status exec_ab (session_d9_kept\<lparr>cloud := Some relay\<rparr>))) =
       [(''db_position'', VInt 1), (''db_location'', VInt 2)]"
proof -
  let ?d = "session_d9\<lparr>cloud := Some relay\<rparr>"
  let ?k = "session_d9_kept\<lparr>cloud := Some relay\<rparr>"
  have f: "device_type ?d = 0xD9" "calculate_get ?d = []" "queries ?d = [] @ QDict [] # []"
    "refresh_loop exec_ab ?d [] = (Inr (), ?d)"
    "map_of (attributes ?d) ''db_position'' = Some (VInt 0)"
    "map_of (attributes ?d) ''db_location'' = Some (VInt 1)"
    "cloud ?d = Some relay" "trace ?d = []" "queries ?d = QDict [] # []"
    "attributes ?d = [(''db_position'', VInt 0), (''db_location'', VInt 1)]"
    by (simp_all add: session_d9_def bare_def)
  have g: "device_type ?k = 0xD9" "calculate_get ?k = []" "queries ?k = [] @ QDict [] # []"
    "refresh_loop exec_ab ?k [] = (Inr (), ?k)"
    "map_of (attributes ?k) ''db_position'' = Some (VInt 1)"
    "map_of (attributes ?k) ''db_location'' = Some (VInt 2)"
    "cloud ?k = Some relay" "trace ?k = []"
    "attributes ?k = [(''db_position'', VInt 1), (''db_location'', VInt 2)]"
    by (simp_all add: session_d9_kept_def bare_def)
  have r: "has_get_device_status relay" "cloud_class relay = MeijuCloud"
    by (simp_all add: relay_def)
  note wd = dual_chamber_query [OF f(1), where q = "[]" and pre = "[]" and post = "[]"
      and rest = "[]" and ex = exec_ab and ?d1.0 = ?d and c = relay]
  note wk = dual_chamber_query [OF g(1), where q = "[]" and pre = "[]" and post = "[]"
      and ex = exec_ab and ?d1.0 = ?k and c = relay and loc = "VInt 2"]
  have 1: "prefix (trace ?d @ [GetDeviceStatus (QDict (AList.update ''db_location'' (VInt 2) []))])
       (trace (snd (refresh_status exec_ab ?d)))"
    using wd f(3-7) r by blast
  have 2: "attributes (snd (refresh_status exec_ab ?d)) = label_right (attributes ?d)"
    using wd f(2,5,6,9) by blast
  have 3: "prefix (trace ?k @ [GetDeviceStatus (QDict (AList.update ''db_location'' (VInt 2) []))])
       (trace (snd (refresh_status exec_ab ?k)))"
    using wk g(3-7) r by blast
  have 4: "attributes (snd (refresh_status exec_ab ?k)) = attributes ?k"
    using wk g(2,5) by blast
  show ?thesis
    using f(1-7) g(1,5,6) r 1 2 3 4
    by (simp add: f(8,10) g(8,9) label_right_def)
qed

subsection \<open>C8: names that are not in the store\<close>

text \<open>
  C8 at the input where \<open>set_attributes\<close> departs from it: on a device of type 0xD9
  whose store has no \<open>db_location_selection\<close>, \<open>set_attributes\<close> with only that name
  returns normally, but it has written \<open>db_location\<close> to the store and has run a refresh,
  which called the relay and sent a query command.
\<close>

theorem set_attributes_unknown_name_d9:
  "\<not> has_key (attributes session_d9_relay) ''db_location_selection''
   \<and> fst (set_attributes exec_ab session_d9_relay [(''db_location_selection'', VStr ''left'')]) = Inr ()
   \<and> attributes (snd (set_attributes exec_ab session_d9_relay
                         [(''db_location_selection'', VStr ''left'')])) =
       [(''power'', VStr ''on''), (''db_location'', VInt 1)]
   \<and> trace (snd (set_attributes exec_ab session_d9_relay
                    [(''db_location_selection'', VStr ''left'')])) =
       [GetDeviceStatus (QDict [(''db_location'', VInt 1)]),
        BuildQuery (QDict [(''db_location'', VInt 1)]),
        SendCloud [170, 85], DecodeStatus ''0102'']"
  by (simp add: example_defs merge_defs set_attributes_def set_attributes_status_def
      has_key_def centralized_status_def select_location_def set_attr_def
      refresh_status_def refresh_query_def derive_query_def query_local_def build_send_def
      send_message_def hex_digit_def is_space_def convert_to_nested_structure_def Let_def)

text \<open>\<open>set_attribute\<close> does what C8 says, for every device type.\<close>

lemma set_attribute_unknown: "\<not> has_key (attributes d) a \<Longrightarrow> set_attribute ex d a v = (Inr (), d)"
  by (simp add: set_attribute_def)

text \<open>
  So does \<open>set_attributes\<close> for every device type but 0xD9: nothing is sent and the
  session is left as it was.
\<close>

lemma collect_known_none:
  "\<forall>p \<in> set attrs. \<not> has_key store (fst p) \<Longrightarrow> collect_known store attrs acc = acc"
  by (induction attrs arbitrary: acc) (auto split: prod.splits)

lemma set_attributes_unknown_other:
  assumes "device_type d \<noteq> 0xD9" and "\<forall>p \<in> set attrs. \<not> has_key (attributes d) (fst p)"
  shows "snd (set_attributes ex d attrs) = d"
  using assms(1)
  by (simp add: set_attributes_def collect_known_none [OF assms(2)]
      set_attributes_status_other split: sum.splits)

subsection \<open>C5: failures of the codec and of the relay\<close>



lemma cloud_control_attributes: "attributes (snd (cloud_control d n)) = attributes d"
  by (simp add: cloud_control_def Let_def emit_def split: option.splits sum.splits)












subsection \<open>C4: who writes the store\<close>












lemma reported_cloud_control:
  "reported ex d0 (attributes d) \<Longrightarrow> reported ex d0 (attributes (snd (cloud_control d n)))"
  by (simp add: cloud_control_attributes)





subsection \<open>C3: the fallback chain\<close>

lemma send_message_sends:
  assumes "cloud d = Some c"
  shows "prefix (trace d @ [SendCloud data]) (trace (snd (send_message ex d data)))"
proof -
  let ?d1 = "emit (SendCloud data) d"
  have e: "evolves ?d1 (emit a ?d1)" for a
    by (rule evolves_emit [OF evolves_refl])
  have "evolves ?d1 (snd (send_message ex d data))"
    using assms
    by (auto simp: send_message_def Let_def evolves_refl e
        split: option.splits sum.splits prod.splits
        dest!: evolves_parse_dest
        intro: evolves_trans [OF e] evolves_emit [OF evolves_trans [OF e]])
  then show ?thesis
    by (simp add: evolves_def emit_def)
qed

lemma query_local_sends:
  assumes "cloud d = Some c" and "lua_runtime d = Some rt"
    and "build_query rt aq = Inr (Some cmd)" and "cmd \<noteq> []" and "fromhex cmd = Inr bs"
  shows "prefix (trace d @ [BuildQuery aq, SendCloud bs]) (trace (snd (query_local ex d aq)))"
proof -
  let ?d1 = "emit (BuildQuery aq) d"
  have "cloud ?d1 = Some c"
    using assms(1) by (simp add: emit_def)
  from send_message_sends [OF this, of bs ex]
  have "prefix (trace d @ [BuildQuery aq, SendCloud bs]) (trace (snd (send_message ex ?d1 bs)))"
    by (simp add: emit_def)
  then show ?thesis
    using assms by (simp add: query_local_def Let_def build_send_def)
qed

lemma refresh_query_falls_back:
  assumes "derive_query d q = (aq, d0)"
    and "cloud d = Some c" and "has_get_device_status c"
    and "cloud_class c = MSmartHomeCloud \<or> cloud_class c = MeijuCloud"
    and "get_device_status c aq = Inr r" and "r = None \<or> r = Some []"
    and "lua_runtime d = Some rt"
    and "build_query rt aq = Inr (Some cmd)" and "cmd \<noteq> []" and "fromhex cmd = Inr bs"
  shows "prefix (trace d0 @ [GetDeviceStatus aq, BuildQuery aq, SendCloud bs])
           (trace (snd (refresh_query ex d q)))"
proof -
  have d0: "evolves d d0"
    using evolves_derive_query [of d q] assms(1) by simp
  then have c0: "cloud d0 = Some c" and l0: "lua_runtime d0 = Some rt"
    using assms(2,7) by (simp_all add: evolves_def)
  let ?d1 = "emit (GetDeviceStatus aq) d0"
  have c1: "cloud ?d1 = Some c" and l1: "lua_runtime ?d1 = Some rt"
    using c0 l0 by (simp_all add: emit_def)
  have "refresh_query ex d q = query_local ex ?d1 aq"
    unfolding refresh_query_def assms(1) using c0 assms(3,4,5,6)
    by (auto simp: Let_def)
  with query_local_sends [OF c1 l1 assms(8,9,10), of ex] show ?thesis
    by (simp add: emit_def)
qed

lemma refresh_status_falls_back:
  assumes "queries d = pre @ q # post" and "refresh_loop ex d pre = (Inr (), d1)"
    and "derive_query d1 q = (aq, d2)"
    and "cloud d = Some c" and "has_get_device_status c"
    and "cloud_class c = MSmartHomeCloud \<or> cloud_class c = MeijuCloud"
    and "get_device_status c aq = Inr r" and "r = None \<or> r = Some []"
    and "lua_runtime d = Some rt"
    and "build_query rt aq = Inr (Some cmd)" and "cmd \<noteq> []" and "fromhex cmd = Inr bs"
  shows "prefix (trace d2 @ [GetDeviceStatus aq, BuildQuery aq, SendCloud bs])
           (trace (snd (refresh_status ex d)))"
proof -
  have "evolves d d1"
    using evolves_refresh_loop [of d ex pre] assms(2) by simp
  then have c1: "cloud d1 = Some c" and l1: "lua_runtime d1 = Some rt"
    using assms(4,9) by (simp_all add: evolves_def)
  note p = refresh_query_falls_back [OF assms(3) c1 assms(5,6,7,8) l1 assms(10,11,12), of ex]
  obtain res d3 where rq: "refresh_query ex d1 q = (res, d3)"
    by (cases "refresh_query ex d1 q")
  have "evolves d3 (snd (refresh_loop ex d1 (q # post)))"
    using rq evolves_refresh_loop [of d3 ex post]
    by (cases res) (simp_all add: evolves_refl)
  then have "prefix (trace d3) (trace (snd (refresh_loop ex d1 (q # post))))"
    by (simp add: evolves_def)
  with p rq have "prefix (trace d2 @ [GetDeviceStatus aq, BuildQuery aq, SendCloud bs])
      (trace (snd (refresh_loop ex d1 (q # post))))"
    by (auto intro: prefix_order.trans)
  moreover have "refresh_status ex d = refresh_loop ex d1 (q # post)"
    by (simp add: refresh_status_def assms(1,2) refresh_loop_append)
  ultimately show ?thesis
    by simp
qed

lemma set_attribute_falls_back:
  assumes "has_key (attributes d) a" and "set_attribute_status ex d a v = (Inr ns, d1)"
    and "convert_to_nested_structure ns = Inr n"
    and "lua_runtime d1 = Some rt" and "build_control rt n (attributes d1) = Inr r"
    and "r = None \<or> r = Some []"
    and "cloud d1 = Some c" and "has_send_device_control c"
    and "cloud_class c = MSmartHomeCloud \<or> cloud_class c = MeijuCloud"
  shows "trace (snd (set_attribute ex d a v)) =
           trace d1 @ [BuildControl n (attributes d1), SendDeviceControl n (attributes d1)]
       \<and> fst (set_attribute ex d a v) = send_device_control c n (attributes d1)"
proof -
  let ?d2 = "emit (BuildControl n (attributes d1)) d1"
  have "set_attribute ex d a v = control_send ex d1 n"
    using assms(1,2,3) by (simp add: set_attribute_def)
  also have "\<dots> = cloud_control ?d2 n"
    using assms(4,5,6) by (auto simp: control_send_def Let_def)
  finally show ?thesis
    using assms(7,8,9)
    by (auto simp: cloud_control_def Let_def emit_def split: sum.splits)
qed

lemma split_str_nonempty: "split_str s c \<noteq> []"
  by (induction s) (auto split: list.splits)

lemma split_str_no_sep: "c \<notin> set s \<Longrightarrow> split_str s c = [s]"
  by (induction s) auto

lemma nested_lookup_empty: "nested_lookup ks [] = None"
proof (cases ks)
  case Nil
  then show ?thesis by simp
next
  case (Cons k ks')
  then show ?thesis by (cases ks') simp_all
qed

lemma nested_assign_same:
  "ks \<noteq> [] \<Longrightarrow> nested_assign ks v d = Inr d' \<Longrightarrow> nested_lookup ks d' = Some (Leaf v)"
proof (induction ks v d arbitrary: d' rule: nested_assign.induct)
  case (1 v d)
  then show ?case by simp
next
  case (2 k v d)
  then show ?case by (auto simp: update_conv')
next
  case (3 k k2 ks v d)
  show ?case
  proof (cases "map_of d k")
    case None
    with "3.prems" obtain sub where s: "nested_assign (k2 # ks) v [] = Inr sub"
      "d' = AList.update k (Node sub) d"
      by (auto split: sum.splits)
    from "3.IH"(1) [OF None _ s(1)] show ?thesis
      by (simp add: s(2) update_conv')
  next
    case (Some x)
    show ?thesis
    proof (cases x)
      case (Leaf y)
      with Some "3.prems" show ?thesis by simp
    next
      case (Node cur)
      with Some "3.prems" obtain sub where s: "nested_assign (k2 # ks) v cur = Inr sub"
        "d' = AList.update k (Node sub) d"
        by (auto split: sum.splits)
      from "3.IH"(2) [OF Some Node _ s(1)] show ?thesis
        by (simp add: s(2) update_conv')
    qed
  qed
qed

lemma nested_assign_apart:
  "nested_assign ks v d = Inr d' \<Longrightarrow> \<not> prefix ks qs \<Longrightarrow> \<not> prefix qs ks \<Longrightarrow>
   nested_lookup qs d' = nested_lookup qs d"
proof (induction ks v d arbitrary: d' qs rule: nested_assign.induct)
  case (1 v d)
  then show ?case by simp
next
  case (2 k v d)
  then obtain q qs' where qs: "qs = q # qs'" "q \<noteq> k"
    by (cases qs) auto
  from 2 show ?case
    unfolding qs by (cases qs') (auto simp: update_conv' qs(2))
next
  case (3 k k2 ks v d)
  from "3.prems" obtain q qs' where qs: "qs = q # qs'"
    by (cases qs) auto
  show ?case
  proof (cases "q = k")
    case False
    have u: "map_of d' q = map_of d q"
      using "3.prems"(1) False
      by (auto simp: update_conv' split: option.splits nested.splits sum.splits)
    show ?thesis
      unfolding qs using u by (cases qs') simp_all
  next
    case True
    with "3.prems" qs have p: "\<not> prefix (k2 # ks) qs'" "\<not> prefix qs' (k2 # ks)"
      by auto
    then obtain q2 qs2 where qs': "qs' = q2 # qs2"
      by (cases qs') auto
    show ?thesis
    proof (cases "map_of d k")
      case None
      with "3.prems" obtain sub where s: "nested_assign (k2 # ks) v [] = Inr sub"
        "d' = AList.update k (Node sub) d"
        by (auto split: sum.splits)
      from "3.IH"(1) [OF None s(1) p] have "nested_lookup (q2 # qs2) sub = None"
        by (simp add: qs' nested_lookup_empty)
      then show ?thesis
        unfolding qs True qs' using None
        by (simp add: s(2) update_conv')
    next
      case (Some x)
      show ?thesis
      proof (cases x)
        case (Leaf y)
        with Some "3.prems" show ?thesis by simp
      next
        case (Node cur)
        with Some "3.prems" obtain sub where s: "nested_assign (k2 # ks) v cur = Inr sub"
          "d' = AList.update k (Node sub) d"
          by (auto split: sum.splits)
        from "3.IH"(2) [OF Some Node s(1) p]
        have "nested_lookup (q2 # qs2) sub = nested_lookup (q2 # qs2) cur"
          by (simp add: qs')
        then show ?thesis
          unfolding qs True qs' using Some Node
          by (simp add: s(2) update_conv')
      qed
    qed
  qed
qed

lemma convert_loop_step:
  "convert_loop ((k, v) # rest) n =
     (case nested_assign (split_str k CHR ''.'') v n of
        Inl e \<Rightarrow> Inl e
      | Inr n' \<Rightarrow> convert_loop rest n')"
  by (simp add: split_str_no_sep)

lemma convert_loop_preserves:
  "convert_loop ns n0 = Inr n \<Longrightarrow>
   \<forall>p \<in> set ns. \<not> prefix (split_str (fst p) CHR ''.'') qs \<and>
                 \<not> prefix qs (split_str (fst p) CHR ''.'') \<Longrightarrow>
   nested_lookup qs n = nested_lookup qs n0"
proof (induction ns arbitrary: n0)
  case Nil
  then show ?case by simp
next
  case (Cons p ns)
  obtain k v where p: "p = (k, v)" by (cases p)
  from Cons.prems(1) obtain n1 where
    n1: "nested_assign (split_str k CHR ''.'') v n0 = Inr n1" "convert_loop ns n1 = Inr n"
    unfolding p convert_loop_step by (auto split: sum.splits)
  have "nested_lookup qs n = nested_lookup qs n1"
    using Cons.IH [OF n1(2)] Cons.prems(2) by simp
  also have "\<dots> = nested_lookup qs n0"
    using nested_assign_apart [OF n1(1)] Cons.prems(2) by (simp add: p)
  finally show ?case .
qed

lemma convert_loop_lookup:
  "convert_loop ns n0 = Inr n \<Longrightarrow> apart (map (\<lambda>p. split_str (fst p) CHR ''.'') ns) \<Longrightarrow>
   \<forall>(k, v) \<in> set ns. nested_lookup (split_str k CHR ''.'') n = Some (Leaf v)"
proof (induction ns arbitrary: n0)
  case Nil
  then show ?case by simp
next
  case (Cons p ns)
  obtain k v where p: "p = (k, v)" by (cases p)
  from Cons.prems(1) obtain n1 where
    n1: "nested_assign (split_str k CHR ''.'') v n0 = Inr n1" "convert_loop ns n1 = Inr n"
    unfolding p convert_loop_step by (auto split: sum.splits)
  have a: "\<forall>q \<in> set ns. \<not> prefix (split_str (fst q) CHR ''.'') (split_str k CHR ''.'') \<and>
                         \<not> prefix (split_str k CHR ''.'') (split_str (fst q) CHR ''.'')"
    and b: "apart (map (\<lambda>p. split_str (fst p) CHR ''.'') ns)"
    using Cons.prems(2) by (auto simp: p)
  have "nested_lookup (split_str k CHR ''.'') n = nested_lookup (split_str k CHR ''.'') n1"
    using convert_loop_preserves [OF n1(2) a] .
  also have "\<dots> = Some (Leaf v)"
    using nested_assign_same [OF split_str_nonempty n1(1)] .
  finally have "nested_lookup (split_str k CHR ''.'') n = Some (Leaf v)" .
  with Cons.IH [OF n1(2) b] show ?case
    by (simp add: p)
qed

lemma map_of_centralized_fold:
  "map_of (fold (\<lambda>attr ns. AList.update attr (f attr) ns) ks acc) k =
     (if k \<in> set ks then Some (f k) else map_of acc k)"
  by (induction ks arbitrary: acc) (auto simp: update_conv')

lemma map_of_centralized_status:
  "map_of (centralized_status s) k =
     (if k \<in> set (centralized s) then Some (dict_get (attributes s) k VNone) else None)"
  by (simp add: centralized_status_def map_of_centralized_fold)

text \<open>
  C3. In \<open>refresh_status\<close>, for every configured query that the loop reaches: when the
  relay's status call returns no data (\<open>None\<close> or an empty mapping) and the codec builds
  a command for the derived query, the session asks the codec for the query command with
  the derived query and sends the command, in that order. In \<open>set_attribute\<close>, when the
  codec's \<open>build_control\<close> returns no result, the session calls the relay's
  \<open>send_device_control\<close> with the nested payload and the whole attribute store, and
  nothing else. The nested payload holds every name of the flat payload at the path that
  its dots spell, as long as no such path is a prefix of another; the flat payload (for
  a device type other than 0xD9) is the centralized attributes with their stored values
  and the changed attribute with its new value. (The relay is one of the two known
  classes; the command is sent through the relay's \<open>send_cloud\<close>.)
\<close>

theorem fallback_chain:
  "(queries d = pre @ q # post \<and> refresh_loop ex d pre = (Inr (), d1) \<and>
    derive_query d1 q = (aq, d2) \<and>
    cloud d = Some c \<and> has_get_device_status c \<and>
    (cloud_class c = MSmartHomeCloud \<or> cloud_class c = MeijuCloud) \<and>
    get_device_status c aq = Inr r \<and> (r = None \<or> r = Some []) \<and>
    lua_runtime d = Some rt \<and> build_query rt aq = Inr (Some cmd) \<and> cmd \<noteq> [] \<and>
    fromhex cmd = Inr bs \<longrightarrow>
      prefix (trace d2 @ [GetDeviceStatus aq, BuildQuery aq, SendCloud bs])
        (trace (snd (refresh_status ex d))))
   \<and> (has_key (attributes s) a \<and> set_attribute_status ex s a v = (Inr ns, s1) \<and>
      convert_to_nested_structure ns = Inr n \<and>
      lua_runtime s1 = Some rt' \<and> build_control rt' n (attributes s1) = Inr r' \<and>
      (r' = None \<or> r' = Some []) \<and>
      cloud s1 = Some c' \<and> has_send_device_control c' \<and>
      (cloud_class c' = MSmartHomeCloud \<or> cloud_class c' = MeijuCloud) \<longrightarrow>
        trace (snd (set_attribute ex s a v)) =
          trace s1 @ [BuildControl n (attributes s1), SendDeviceControl n (attributes s1)]
        \<and> fst (set_attribute ex s a v) = send_device_control c' n (attributes s1))
   \<and> (convert_to_nested_structure ns = Inr n \<and>
      apart (map (\<lambda>p. split_str (fst p) CHR ''.'') ns) \<longrightarrow>
        (\<forall>(k, w) \<in> set ns. nested_lookup (split_str k CHR ''.'') n = Some (Leaf w)))
   \<and> (device_type s \<noteq> 0xD9 \<longrightarrow>
        set_attribute_status ex s a v = (Inr (AList.update a v (centralized_status s)), s)
        \<and> map_of (AList.update a v (centralized_status s)) a = Some v
        \<and> (\<forall>k \<in> set (centralized s). k \<noteq> a \<longrightarrow>
              map_of (AList.update a v (centralized_status s)) k =
                Some (dict_get (attributes s) k VNone)))"
proof (intro conjI impI)
  assume "queries d = pre @ q # post \<and> refresh_loop ex d pre = (Inr (), d1) \<and>
    derive_query d1 q = (aq, d2) \<and>
    cloud d = Some c \<and> has_get_device_status c \<and>
    (cloud_class c = MSmartHomeCloud \<or> cloud_class c = MeijuCloud) \<and>
    get_device_status c aq = Inr r \<and> (r = None \<or> r = Some []) \<and>
    lua_runtime d = Some rt \<and> build_query rt aq = Inr (Some cmd) \<and> cmd \<noteq> [] \<and>
    fromhex cmd = Inr bs"
  then show "prefix (trace d2 @ [GetDeviceStatus aq, BuildQuery aq, SendCloud bs])
        (trace (snd (refresh_status ex d)))"
    by (intro refresh_status_falls_back [of d pre q post ex d1 aq d2 c r rt cmd bs]) simp_all
next
  assume h: "has_key (attributes s) a \<and> set_attribute_status ex s a v = (Inr ns, s1) \<and>
      convert_to_nested_structure ns = Inr n \<and>
      lua_runtime s1 = Some rt' \<and> build_control rt' n (attributes s1) = Inr r' \<and>
      (r' = None \<or> r' = Some []) \<and>
      cloud s1 = Some c' \<and> has_send_device_control c' \<and>
      (cloud_class c' = MSmartHomeCloud \<or> cloud_class c' = MeijuCloud)"
  have "trace (snd (set_attribute ex s a v)) =
          trace s1 @ [BuildControl n (attributes s1), SendDeviceControl n (attributes s1)]
        \<and> fst (set_attribute ex s a v) = send_device_control c' n (attributes s1)"
    using h by (intro set_attribute_falls_back [of s a ex v ns s1 n rt' r' c']) simp_all
  then show "trace (snd (set_attribute ex s a v)) =
          trace s1 @ [BuildControl n (attributes s1), SendDeviceControl n (attributes s1)]"
    and "fst (set_attribute ex s a v) = send_device_control c' n (attributes s1)"
    by simp_all
next
  assume "convert_to_nested_structure ns = Inr n \<and>
      apart (map (\<lambda>p. split_str (fst p) CHR ''.'') ns)"
  then show "\<forall>(k, w) \<in> set ns. nested_lookup (split_str k CHR ''.'') n = Some (Leaf w)"
    unfolding convert_to_nested_structure_def by (intro convert_loop_lookup [of ns "[]"]) simp_all
next
  assume t: "device_type s \<noteq> 0xD9"
  then show "set_attribute_status ex s a v = (Inr (AList.update a v (centralized_status s)), s)"
    by (rule set_attribute_status_other)
  show "map_of (AList.update a v (centralized_status s)) a = Some v"
    by (simp add: update_conv')
  show "\<forall>k \<in> set (centralized s). k \<noteq> a \<longrightarrow>
              map_of (AList.update a v (centralized_status s)) k =
                Some (dict_get (attributes s) k VNone)"
    by (simp add: update_conv' map_of_centralized_status)
qed

theorem fallback_chain_witness:
  "queries session_relay = [] @ QDict [] # []
   \<and> refresh_loop exec_ab session_relay [] = (Inr (), session_relay)
   \<and> derive_query session_relay (QDict []) = (QDict [], session_relay)
   \<and> cloud session_relay = Some relay \<and> has_get_device_status relay
   \<and> cloud_class relay = MeijuCloud \<and> get_device_status relay (QDict []) = Inr None
   \<and> lua_runtime session_relay = Some codec
   \<and> build_query codec (QDict []) = Inr (Some ''aa55'') \<and> fromhex ''aa55'' = Inr [170, 85]
   \<and> prefix [GetDeviceStatus (QDict []), BuildQuery (QDict []), SendCloud [170, 85]]
       (trace (snd (refresh_status exec_ab session_relay)))
   \<and> has_key (attributes session_dot) ''x.y'' \<and> device_type session_dot \<noteq> 0xD9
   \<and> set_attribute_status exec_ab session_dot ''x.y'' (VInt 5) =
       (Inr [(''x.z'', VInt 2), (''x.y'', VInt 5)], session_dot)
   \<and> convert_to_nested_structure [(''x.z'', VInt 2), (''x.y'', VInt 5)] =
       Inr [(''x'', Node [(''z'', Leaf (VInt 2)), (''y'', Leaf (VInt 5))])]
   \<and> apart (map (\<lambda>p. split_str (fst p) CHR ''.'') [(''x.z'', VInt 2), (''x.y'', VInt 5)])
   \<and> nested_lookup [''x'', ''y'']
        [(''x'', Node [(''z'', Leaf (VInt 2)), (''y'', Leaf (VInt 5))])] = Some (Leaf (VInt 5))
   \<and> nested_lookup [''x'', ''z'']
        [(''x'', Node [(''z'', Leaf (VInt 2)), (''y'', Leaf (VInt 5))])] = Some (Leaf (VInt 2))
   \<and> lua_runtime session_dot = Some codec \<and> cloud session_dot = Some relay
   \<and> build_control codec [(''x'', Node [(''z'', Leaf (VInt 2)), (''y'', Leaf (VInt 5))])]
        (attributes session_dot) = Inr None
   \<and> has_send_device_control relay
   \<and> trace (snd (set_attribute exec_ab session_dot ''x.y'' (VInt 5))) =
       [BuildControl [(''x'', Node [(''z'', Leaf (VInt 2)), (''y'', Leaf (VInt 5))])]
          [(''x.y'', VInt 1), (''x.z'', VInt 2)],
        SendDeviceControl [(''x'', Node [(''z'', Leaf (VInt 2)), (''y'', Leaf (VInt 5))])]
          [(''x.y'', VInt 1), (''x.z'', VInt 2)]]
   \<and> fst (set_attribute exec_ab session_dot ''x.y'' (VInt 5)) = Inr ()"
proof -
  let ?n = "[(''x'', Node [(''z'', Leaf (VInt 2)), (''y'', Leaf (VInt 5))])]"
  let ?ns = "[(''x.z'', VInt 2), (''x.y'', VInt 5)]"
  have A: "queries session_relay = [] @ QDict [] # []"
    "refresh_loop exec_ab session_relay [] = (Inr (), session_relay)"
    "derive_query session_relay (QDict []) = (QDict [], session_relay)"
    "cloud session_relay = Some relay" "lua_runtime session_relay = Some codec"
    "trace session_relay = []"
    by (simp_all add: session_relay_def session_ac_def bare_def derive_query_def)
  have R: "has_get_device_status relay" "cloud_class relay = MeijuCloud"
    "get_device_status relay (QDict []) = Inr None" "has_send_device_control relay"
    "send_device_control relay ?n (attributes session_dot) = Inr ()"
    by (simp_all add: relay_def)
  have C: "build_query codec (QDict []) = Inr (Some ''aa55'')"
    "build_control codec ?n (attributes session_dot) = Inr None"
    by (simp_all add: codec_def)
  have H: "fromhex ''aa55'' = Inr [170, 85]"
    by (simp add: hex_digit_def is_space_def)
  have B: "has_key (attributes session_dot) ''x.y''" "device_type session_dot \<noteq> 0xD9"
    "lua_runtime session_dot = Some codec" "cloud session_dot = Some relay"
    "trace session_dot = []"
    "attributes session_dot = [(''x.y'', VInt 1), (''x.z'', VInt 2)]"
    "centralized_status session_dot = [(''x.z'', VInt 2)]"
    by (simp_all add: session_dot_def bare_def has_key_def centralized_status_def dict_get_def)
  have P: "convert_to_nested_structure ?ns = Inr ?n"
    "apart (map (\<lambda>p. split_str (fst p) CHR ''.'') ?ns)"
    by (simp_all add: convert_to_nested_structure_def)
  note w = fallback_chain [where d = session_relay and pre = "[]" and q = "QDict []"
      and post = "[]" and ex = exec_ab and ?d1.0 = session_relay and aq = "QDict []"
      and ?d2.0 = session_relay and c = relay and r = None and rt = codec
      and cmd = "''aa55''" and bs = "[170, 85]" and s = session_dot and a = "''x.y''"
      and v = "VInt 5" and ns = ?ns and ?s1.0 = session_dot and n = ?n and rt' = codec
      and r' = None and c' = relay]
  have S: "set_attribute_status exec_ab session_dot ''x.y'' (VInt 5) = (Inr ?ns, session_dot)"
    using w B(2,7) by simp
  have 1: "prefix [GetDeviceStatus (QDict []), BuildQuery (QDict []), SendCloud [170, 85]]
       (trace (snd (refresh_status exec_ab session_relay)))"
    using w A R C H by simp
  have 2: "trace (snd (set_attribute exec_ab session_dot ''x.y'' (VInt 5))) =
       [BuildControl ?n [(''x.y'', VInt 1), (''x.z'', VInt 2)],
        SendDeviceControl ?n [(''x.y'', VInt 1), (''x.z'', VInt 2)]]
     \<and> fst (set_attribute exec_ab session_dot ''x.y'' (VInt 5)) = Inr ()"
    using w B S P R C by simp
  have 3: "nested_lookup (split_str ''x.y'' CHR ''.'') ?n = Some (Leaf (VInt 5))"
    "nested_lookup (split_str ''x.z'' CHR ''.'') ?n = Some (Leaf (VInt 2))"
    using w P by auto
  have 4: "nested_lookup [''x'', ''y''] ?n = Some (Leaf (VInt 5))"
    "nested_lookup [''x'', ''z''] ?n = Some (Leaf (VInt 2))"
    using 3 by simp_all
  show ?thesis
    using A(1-5) R(1-4) C H B(1-4) S P 1 2 4 by simp
qed

end
